theory Spec2Isabelle
  imports Complex_Main "HOL-Library.Sublist"
begin

section \<open>Python strings and slices\<close>

text \<open>
  A Python \<open>str\<close> is a sequence of Unicode code points, and \<open>len\<close> and slicing count
  code points. It is modelled as a list of code points; ASCII literals of the source are
  written with \<open>str\<close>.
\<close>

type_synonym pystr = "nat list"

definition str :: "string \<Rightarrow> pystr" where
  "str s = map of_char s"

text \<open>\<open>xs[:k]\<close> for a literal \<open>k \<ge> 0\<close>.\<close>

definition py_prefix :: "nat \<Rightarrow> 'a list \<Rightarrow> 'a list" where
  "py_prefix k xs = take k xs"

text \<open>
  \<open>xs[-k:]\<close> for a literal \<open>k \<ge> 0\<close>: the last \<open>k\<close> elements, the whole list when it
  is shorter than \<open>k\<close>, and also the whole list when \<open>k = 0\<close> (\<open>xs[-0:]\<close> is \<open>xs[0:]\<close>).
\<close>

definition py_suffix :: "nat \<Rightarrow> 'a list \<Rightarrow> 'a list" where
  "py_suffix k xs = (if k = 0 then xs else drop (length xs - k) xs)"

section \<open>Chat sessions (services/session/chat\_service.py)\<close>

datatype deployment_mode = Production | Local

text \<open>
  The fields of \<open>Settings\<close> (core/config.py) that the modelled code reads. The cost factors
  are Python floats; they are taken as real numbers, so rounding is not modelled.
\<close>

record settings =
  DEPLOYMENT_MODE :: deployment_mode
  ENABLE_LOCAL_SESSION_CACHE :: bool
  LLM_COST_FACTOR :: real
  RSHUB_TASK_COST_FACTOR :: real
  RSHUB_TOKEN :: pystr

text \<open>\<open>self.enable_local_cache\<close>, set in \<open>ChatSessionService.__init__\<close>.\<close>

definition enable_local_cache :: "settings \<Rightarrow> bool" where
  "enable_local_cache cfg = ENABLE_LOCAL_SESSION_CACHE cfg"

record chat_message =
  role :: pystr
  content :: pystr
  timestamp :: pystr

record session_data =
  session_id :: pystr
  title :: pystr
  created_at :: pystr
  updated_at :: pystr
  messages :: "chat_message list"



definition user_message :: "pystr \<Rightarrow> pystr \<Rightarrow> chat_message" where
  "user_message user_prompt t = \<lparr>role = str ''user'', content = user_prompt, timestamp = t\<rparr>"

definition assistant_message :: "pystr \<Rightarrow> pystr \<Rightarrow> chat_message" where
  "assistant_message ai_response t =
     \<lparr>role = str ''assistant'', content = ai_response, timestamp = t\<rparr>"


subsection \<open>The two backends\<close>

text \<open>
  The local cache holds one JSON file per session id; the remote store (RSHub) is keyed by
  token and chat id. What a call to a backend does depends on the outside world: whether
  the file can be written, whether the remote service answers and accepts. These
  outcomes are the fields of \<open>world\<close>. After every successful local write the service
  runs \<open>_cleanup_old_sessions\<close>, which deletes cache files by age and count, reading
  the clock and the directory listing; its effect on the cache is the field \<open>sweep\<close>.
  A write that fails is taken to leave the store as it was, and what a store holds is
  taken to be a well-formed session.
\<close>

record backends =
  local_store :: "pystr \<rightharpoonup> session_data"
  rshub_store :: "pystr \<times> pystr \<rightharpoonup> session_data"

record world =
  local_write_ok :: bool
  rshub_write_ok :: bool
  rshub_read_ok :: bool
  sweep :: "(pystr \<rightharpoonup> session_data) \<Rightarrow> (pystr \<rightharpoonup> session_data)"

definition save_session_to_local ::
  "settings \<Rightarrow> world \<Rightarrow> backends \<Rightarrow> pystr \<Rightarrow> session_data \<Rightarrow> bool \<times> backends" where
  "save_session_to_local cfg w b sid d =
     (if \<not> enable_local_cache cfg then (False, b)
      else if local_write_ok w
        then (True, b\<lparr>local_store := sweep w ((local_store b)(sid \<mapsto> d))\<rparr>)
        else (False, b))"

definition load_session_from_local ::
  "settings \<Rightarrow> backends \<Rightarrow> pystr \<Rightarrow> session_data option" where
  "load_session_from_local cfg b sid =
     (if \<not> enable_local_cache cfg then None else local_store b sid)"

definition save_session_to_rshub ::
  "world \<Rightarrow> backends \<Rightarrow> pystr \<Rightarrow> pystr \<Rightarrow> session_data \<Rightarrow> bool \<times> backends" where
  "save_session_to_rshub w b token sid d =
     (if rshub_write_ok w
        then (True, b\<lparr>rshub_store := (rshub_store b)((token, sid) \<mapsto> d)\<rparr>)
        else (False, b))"

definition load_session_from_rshub ::
  "world \<Rightarrow> backends \<Rightarrow> pystr \<Rightarrow> pystr \<Rightarrow> session_data option" where
  "load_session_from_rshub w b token sid =
     (if rshub_read_ok w then rshub_store b (token, sid) else None)"

text \<open>\<open>load_session\<close> (lines 239--294); a hit in the remote store is mirrored to the cache.\<close>

definition load_session ::
  "settings \<Rightarrow> world \<Rightarrow> backends \<Rightarrow> pystr \<Rightarrow> pystr \<Rightarrow> session_data option \<times> backends" where
  "load_session cfg w b token sid =
     (case DEPLOYMENT_MODE cfg of
        Production \<Rightarrow>
          (case load_session_from_rshub w b token sid of
             Some rshub_data \<Rightarrow>
               (Some rshub_data,
                if enable_local_cache cfg
                then snd (save_session_to_local cfg w b sid rshub_data) else b)
           | None \<Rightarrow>
               (if enable_local_cache cfg
                then (load_session_from_local cfg b sid, b)
                else (None, b)))
      | Local \<Rightarrow>
          (case (if enable_local_cache cfg then load_session_from_local cfg b sid else None) of
             Some local_data \<Rightarrow> (Some local_data, b)
           | None \<Rightarrow>
               (case load_session_from_rshub w b token sid of
                  Some rshub_data \<Rightarrow>
                    (Some rshub_data,
                     if enable_local_cache cfg
                     then snd (save_session_to_local cfg w b sid rshub_data) else b)
                | None \<Rightarrow> (None, b))))"

text \<open>The dictionaries returned by \<open>create_session\<close> and \<open>update_session\<close>.\<close>

record op_result =
  success :: bool
  res_session_id :: "pystr option"
  res_title :: "pystr option"
  local_cache :: "bool option"
  rshub_sync :: "bool option"
  error :: "pystr option"

text \<open>
  \<open>create_session\<close> (lines 44--117). The session id is read off the clock and the title
  comes from \<open>_generate_session_title\<close> (one LLM call, with its own fallback); both are
  arguments here, as are the readings \<open>clk 0, clk 1, \<dots>\<close> of \<open>datetime.now()\<close>.
\<close>

definition create_session ::
  "settings \<Rightarrow> world \<Rightarrow> backends \<Rightarrow> pystr \<Rightarrow> pystr \<Rightarrow> pystr \<Rightarrow> pystr \<Rightarrow> pystr
     \<Rightarrow> (nat \<Rightarrow> pystr) \<Rightarrow> op_result \<times> backends" where
  "create_session cfg w b token user_prompt ai_response new_id new_title clk =
     (let d = \<lparr>session_id = new_id, title = new_title,
                created_at = clk 0, updated_at = clk 1,
                messages = [user_message user_prompt (clk 2),
                            assistant_message ai_response (clk 3)]\<rparr>;
          (local_success, b1) = save_session_to_local cfg w b new_id d;
          (rshub_success, b2) = save_session_to_rshub w b1 token new_id d
      in if local_success
         then (\<lparr>success = True, res_session_id = Some new_id, res_title = Some new_title,
                local_cache = Some True, rshub_sync = Some rshub_success, error = None\<rparr>, b2)
         else (\<lparr>success = False, res_session_id = Some new_id, res_title = Some new_title,
                local_cache = None, rshub_sync = None,
                error = Some [20445, 23384, 20250, 35805, 22833, 36133]\<rparr>, b2))"




section \<open>Intent classifier (agent/core/task\_classifier.py)\<close>

subsection \<open>Character tables, substrings and the regular expressions of the parser\<close>

text \<open>
  The parser relies on parts of the Python runtime that are not in the repository: which
  code points are whitespace (\<open>str.strip\<close>, \<open>\s\<close>), which are decimal digits and with
  what value (\<open>\d\<close>, \<open>int\<close>), the case mapping \<open>str.lower\<close>, and the limit
  \<open>sys.get_int_max_str_digits()\<close> on the number of digits that \<open>int\<close> converts, \<open>4300\<close>
  by default since Python 3.11 and \<open>0\<close> when there is no limit. They are taken as a
  parameter; \<open>ascii_tab\<close> is their restriction to ASCII, with the default limit.
\<close>

record chartab =
  isspace :: "nat \<Rightarrow> bool"
  decimal :: "nat \<Rightarrow> nat option"
  lower :: "pystr \<Rightarrow> pystr"
  int_max_str_digits :: nat

definition ascii_tab :: chartab where
  "ascii_tab =
     \<lparr>isspace = (\<lambda>c. c \<in> {9, 10, 11, 12, 13, 28, 29, 30, 31, 32}),
      decimal = (\<lambda>c. if 48 \<le> c \<and> c \<le> 57 then Some (c - 48) else None),
      lower = map (\<lambda>c. if 65 \<le> c \<and> c \<le> 90 then c + 32 else c),
      int_max_str_digits = 4300\<rparr>"

definition isdigit :: "chartab \<Rightarrow> nat \<Rightarrow> bool" where
  "isdigit T c = (case decimal T c of None \<Rightarrow> False | Some _ \<Rightarrow> True)"

text \<open>\<open>sub in s\<close> on strings.\<close>

fun starts_with :: "pystr \<Rightarrow> pystr \<Rightarrow> bool" where
  "starts_with [] s = True"
| "starts_with (p # ps) [] = False"
| "starts_with (p # ps) (c # cs) = (p = c \<and> starts_with ps cs)"

fun contains :: "pystr \<Rightarrow> pystr \<Rightarrow> bool" where
  "contains sub [] = starts_with sub []"
| "contains sub (c # cs) = (starts_with sub (c # cs) \<or> contains sub cs)"

text \<open>\<open>any(k in s for k in keywords)\<close>.\<close>

definition any_in :: "pystr list \<Rightarrow> pystr \<Rightarrow> bool" where
  "any_in keywords s = list_ex (\<lambda>k. contains k s) keywords"

text \<open>
  The regular expressions of \<open>error_patterns\<close> are sequences of literal characters,
  \<open>\s*\<close>, \<open>\d\<close> and \<open>\d+\<close>, one of them anchored with \<open>^\<close>. \<open>re.search\<close> is only tested
  for truth, so what matters is whether some match exists.
\<close>

datatype rx_atom = Lit nat | Ws | Dig

datatype rx_item = One rx_atom | Star rx_atom | Plus rx_atom

fun atom_ok :: "chartab \<Rightarrow> rx_atom \<Rightarrow> nat \<Rightarrow> bool" where
  "atom_ok T (Lit k) c = (c = k)"
| "atom_ok T Ws c = isspace T c"
| "atom_ok T Dig c = isdigit T c"

fun match_here :: "chartab \<Rightarrow> rx_item list \<Rightarrow> pystr \<Rightarrow> bool" where
  "match_here T [] s = True"
| "match_here T (One a # r) [] = False"
| "match_here T (One a # r) (c # cs) = (atom_ok T a c \<and> match_here T r cs)"
| "match_here T (Star a # r) [] = match_here T r []"
| "match_here T (Star a # r) (c # cs) =
     (match_here T r (c # cs) \<or> (atom_ok T a c \<and> match_here T (Star a # r) cs))"
| "match_here T (Plus a # r) [] = False"
| "match_here T (Plus a # r) (c # cs) = (atom_ok T a c \<and> match_here T (Star a # r) cs)"

fun match_anywhere :: "chartab \<Rightarrow> rx_item list \<Rightarrow> pystr \<Rightarrow> bool" where
  "match_anywhere T r [] = match_here T r []"
| "match_anywhere T r (c # cs) = (match_here T r (c # cs) \<or> match_anywhere T r cs)"

record pattern =
  anchored :: bool
  items :: "rx_item list"

definition re_search :: "chartab \<Rightarrow> pattern \<Rightarrow> pystr \<Rightarrow> bool" where
  "re_search T p s =
     (if anchored p then match_here T (items p) s else match_anywhere T (items p) s)"

definition lit :: "pystr \<Rightarrow> rx_item list" where
  "lit s = map (\<lambda>c. One (Lit c)) s"

definition error_patterns :: "pattern list" where
  "error_patterns =
     [\<lparr>anchored = False, items = lit (str ''error code:'') @ [Star Ws, Plus Dig]\<rparr>,
      \<lparr>anchored = True,
       items = [One Dig, One Dig, One Dig, Star Ws] @ lit (str ''error'')\<rparr>,
      \<lparr>anchored = False,
       items = lit [25265, 27465, 65292, 23545, 35805, 23436, 25104, 26102, 20986, 29616,
                    38382, 39064]\<rparr>,
      \<lparr>anchored = False, items = lit (str ''api'') @ [Star Ws] @ lit (str ''error'')\<rparr>,
      \<lparr>anchored = False, items = lit (str ''accountoverdue'')\<rparr>,
      \<lparr>anchored = False, items = lit (str ''request'') @ [Star Ws] @ lit (str ''failed'')\<rparr>,
      \<lparr>anchored = False, items = lit (str ''unauthorized'')\<rparr>,
      \<lparr>anchored = False, items = lit (str ''forbidden'')\<rparr>,
      \<lparr>anchored = False, items = lit (str ''rate'') @ [Star Ws] @ lit (str ''limit'')\<rparr>]"

text \<open>
  \<open>re.findall(r'-?\d+', s)\<close>: the scan goes left to right; at each position the optional
  minus sign is taken when digits follow it, the digits are taken greedily, and the scan
  resumes after the match.
\<close>

function findall_int :: "chartab \<Rightarrow> pystr \<Rightarrow> pystr list" where
  "findall_int T [] = []"
| "findall_int T (c # cs) =
     (if c = 45 \<and> takeWhile (isdigit T) cs \<noteq> []
        then (c # takeWhile (isdigit T) cs) # findall_int T (dropWhile (isdigit T) cs)
      else if isdigit T c
        then (c # takeWhile (isdigit T) cs) # findall_int T (dropWhile (isdigit T) cs)
      else findall_int T cs)"
  by pat_completeness auto
termination
  by (relation "measure (\<lambda>(T, s). length s)") (auto simp: less_Suc_eq_le length_dropWhile_le)

text \<open>
  The integer that a match \<open>m\<close> of \<open>-?\d+\<close> denotes, and the number of its digits, the
  sign not counted. Python integers are unbounded.
\<close>

definition digits_value :: "chartab \<Rightarrow> pystr \<Rightarrow> int" where
  "digits_value T ds =
     foldl (\<lambda>a c. 10 * a + int (case decimal T c of None \<Rightarrow> 0 | Some d \<Rightarrow> d)) 0 ds"

definition int_value :: "chartab \<Rightarrow> pystr \<Rightarrow> int" where
  "int_value T m = (case m of [] \<Rightarrow> 0
                    | c # cs \<Rightarrow> if c = 45 then - digits_value T cs else digits_value T (c # cs))"

definition digit_count :: "pystr \<Rightarrow> nat" where
  "digit_count m = (case m of [] \<Rightarrow> 0 | c # cs \<Rightarrow> if c = 45 then length cs else length (c # cs))"

text \<open>
  \<open>int(m)\<close> for such a match: it raises \<open>ValueError\<close> when a limit is set and \<open>m\<close> has
  more digits than the limit, leading zeros included, and gives the integer otherwise.
\<close>

datatype exception = ValueError

definition py_int :: "chartab \<Rightarrow> pystr \<Rightarrow> exception + int" where
  "py_int T m =
     (if int_max_str_digits T \<noteq> 0 \<and> int_max_str_digits T < digit_count m then Inl ValueError
      else Inr (int_value T m))"

text \<open>\<open>s.strip()\<close> and \<open>s.split('\n')\<close>.\<close>

definition py_strip :: "chartab \<Rightarrow> pystr \<Rightarrow> pystr" where
  "py_strip T s = rev (dropWhile (isspace T) (rev (dropWhile (isspace T) s)))"

fun split_nl :: "pystr \<Rightarrow> pystr list" where
  "split_nl [] = [[]]"
| "split_nl (c # cs) =
     (if c = 10 then [] # split_nl cs
      else (case split_nl cs of [] \<Rightarrow> [[c]] | l # ls \<Rightarrow> (c # l) # ls))"

subsection \<open>\<open>_extract_task_type_from_response\<close>, as the code computes it\<close>

definition supported_modes :: "int list" where
  "supported_modes = [1, 2, 3, -1]"

text \<open>The loop over \<open>error_patterns\<close> (lines 151--154), returning at the first match.\<close>

fun matches_error_pattern :: "chartab \<Rightarrow> pattern list \<Rightarrow> pystr \<Rightarrow> bool" where
  "matches_error_pattern T [] s = False"
| "matches_error_pattern T (p # ps) s =
     (if re_search T p s then True else matches_error_pattern T ps s)"

text \<open>The loop over \<open>isolated_error_codes\<close> (lines 157--162).\<close>

definition error_words :: "pystr list" where
  "error_words = [str ''error'', str ''failed'', str ''forbidden'', str ''unauthorized'']"

fun isolated_error_code :: "pystr list \<Rightarrow> pystr \<Rightarrow> bool" where
  "isolated_error_code [] s = False"
| "isolated_error_code (code # codes) s =
     (if contains code s \<and> any_in error_words s then True else isolated_error_code codes s)"

text \<open>
  The loop \<open>for line in reversed(lines)\<close> (lines 170--182); the argument is the reversed
  list, and the result is the value of \<open>task_type\<close> when the loop ends, or the exception
  that \<open>int\<close> has raised on the way.
\<close>

fun scan_lines :: "chartab \<Rightarrow> pystr list \<Rightarrow> exception + int option" where
  "scan_lines T [] = Inr None"
| "scan_lines T (line # rest) =
     (let line = py_strip T line in
      if line = [] then scan_lines T rest
      else (let numbers = findall_int T line in
            if numbers \<noteq> []
            then (case py_int T (last numbers) of
                    Inl e \<Rightarrow> Inl e
                  | Inr candidate \<Rightarrow>
                      if candidate \<in> set supported_modes then Inr (Some candidate)
                      else scan_lines T rest)
            else scan_lines T rest))"

text \<open>The loop \<open>for num in reversed(all_numbers)\<close> (lines 188--193).\<close>

fun scan_numbers :: "chartab \<Rightarrow> pystr list \<Rightarrow> exception + int option" where
  "scan_numbers T [] = Inr None"
| "scan_numbers T (num # rest) =
     (case py_int T num of
        Inl e \<Rightarrow> Inl e
      | Inr candidate \<Rightarrow>
          if candidate \<in> set supported_modes then Inr (Some candidate)
          else scan_numbers T rest)"

definition knowledge_keywords :: "pystr list" where
  "knowledge_keywords =
     [[30693, 35782], [20160, 20040, 26159], [20160, 20040], [22914, 20309],
      [20026, 20160, 20040], [21407, 29702], [35299, 37322], [23450, 20041],
      [20171, 32461], [35828, 26126]]"

definition modeling_keywords :: "pystr list" where
  "modeling_keywords =
     [[26500, 24314], [29983, 25104], [21019, 24314], [24314, 27169], [25552, 20132],
      [35745, 31639], [21442, 25968]]"

definition result_keywords :: "pystr list" where
  "result_keywords =
     [[33719, 21462], [32467, 26524], [21487, 35270, 21270], [23436, 25104], [20998, 26512]]"

definition context_keywords :: "pystr list" where
  "context_keywords =
     [[21018, 25165], [20043, 21069], [21382, 21490], [20219, 21153],
      [20043, 21069, 25552, 20132], [20043, 21069, 21019, 24314], [36816, 34892]]"

text \<open>The keyword matching after the number extraction has failed (lines 199--220).\<close>

definition keyword_match :: "pystr \<Rightarrow> int" where
  "keyword_match response_lower =
     (if any_in knowledge_keywords response_lower then 1
      else if any_in modeling_keywords response_lower then 2
      else if any_in result_keywords response_lower
              \<and> any_in context_keywords response_lower then 3
      else 1)"

text \<open>
  The body of the \<open>try\<close> (lines 133--220): the code it returns, or the exception that
  leaves it.
\<close>

definition try_extract_task_type :: "chartab \<Rightarrow> pystr \<Rightarrow> exception + int" where
  "try_extract_task_type T response =
     (let response_lower = lower T response in
      if matches_error_pattern T error_patterns response_lower then Inr (-1)
      else if isolated_error_code [str ''403'', str ''500''] response_lower then Inr (-1)
      else (let lines = split_nl (py_strip T response) in
            case scan_lines T (rev lines) of
              Inl e \<Rightarrow> Inl e
            | Inr found \<Rightarrow>
                (case (case found of
                         None \<Rightarrow> scan_numbers T (rev (findall_int T response))
                       | Some t \<Rightarrow> Inr (Some t)) of
                   Inl e \<Rightarrow> Inl e
                 | Inr found \<Rightarrow>
                     Inr (case found of
                            Some t \<Rightarrow> t
                          | None \<Rightarrow> keyword_match response_lower))))"

text \<open>
  \<open>_extract_task_type_from_response\<close> (lines 130--224): the \<open>except Exception\<close> clause
  turns every exception of the body into \<open>-1\<close>.
\<close>

definition extract_task_type_from_response :: "chartab \<Rightarrow> pystr \<Rightarrow> int" where
  "extract_task_type_from_response T response =
     (case try_extract_task_type T response of Inl e \<Rightarrow> -1 | Inr t \<Rightarrow> t)"

subsection \<open>The parsing rule, as the specification words it\<close>

text \<open>
  The rule written after the specification, with notions of its own: a keyword or an
  error code occurs in a text when the text is some prefix, the keyword, and some suffix.
\<close>

definition allowed :: "int \<Rightarrow> bool" where
  "allowed n = (n = 1 \<or> n = 2 \<or> n = 3 \<or> n = -1)"

definition mentions :: "pystr list \<Rightarrow> pystr \<Rightarrow> bool" where
  "mentions keywords s = (\<exists>k \<in> set keywords. sublist k s)"

definition error_signal :: "chartab \<Rightarrow> pystr \<Rightarrow> bool" where
  "error_signal T response =
     ((\<exists>p \<in> set error_patterns. re_search T p (lower T response))
      \<or> (mentions [str ''403'', str ''500''] (lower T response)
         \<and> mentions error_words (lower T response)))"

definition nonempty_lines :: "chartab \<Rightarrow> pystr \<Rightarrow> pystr list" where
  "nonempty_lines T response =
     filter (\<lambda>l. l \<noteq> []) (map (py_strip T) (split_nl (py_strip T response)))"

text \<open>
  The trailing signed integer of a line, as it is written; those of the non-empty lines,
  last line first; and the integers of the whole response, last first.
\<close>

definition trailing_numeral :: "chartab \<Rightarrow> pystr \<Rightarrow> pystr option" where
  "trailing_numeral T line =
     (case findall_int T line of [] \<Rightarrow> None | m # ms \<Rightarrow> Some (last (m # ms)))"

definition line_numerals :: "chartab \<Rightarrow> pystr \<Rightarrow> pystr list" where
  "line_numerals T response =
     List.map_filter (trailing_numeral T) (rev (nonempty_lines T response))"

definition all_numerals :: "chartab \<Rightarrow> pystr \<Rightarrow> pystr list" where
  "all_numerals T response = rev (findall_int T response)"

text \<open>
  The keyword heuristics: a knowledge keyword gives \<open>1\<close>; otherwise a modelling keyword
  gives \<open>2\<close>; otherwise a result keyword combined with a context keyword gives \<open>3\<close>;
  otherwise \<open>1\<close>.
\<close>

definition keyword_heuristic :: "chartab \<Rightarrow> pystr \<Rightarrow> int" where
  "keyword_heuristic T response =
     (if mentions knowledge_keywords (lower T response) then 1
      else if mentions modeling_keywords (lower T response) then 2
      else if mentions result_keywords (lower T response)
              \<and> mentions context_keywords (lower T response) then 3
      else 1)"

text \<open>
  The rule of the specification: a response that matches an error-signal pattern gives
  \<open>-1\<close>; otherwise the non-empty lines are walked from last to first, the trailing signed
  integer of each is extracted, and the first one in \<open>{1, 2, 3, -1}\<close> is returned; failing
  that, the integers of the whole response are taken from last to first and the first one
  in the set is returned; failing that, the keyword heuristics decide.
\<close>

definition spec_task_type :: "chartab \<Rightarrow> pystr \<Rightarrow> int" where
  "spec_task_type T response =
     (if error_signal T response then -1
      else case find allowed (map (int_value T) (line_numerals T response)) of
             Some n \<Rightarrow> n
           | None \<Rightarrow>
               (case find allowed (map (int_value T) (all_numerals T response)) of
                  Some n \<Rightarrow> n
                | None \<Rightarrow> keyword_heuristic T response))"

text \<open>
  The same rule, with what happens when \<open>int\<close> refuses an integer: the walk stops at the
  first integer that is refused or lies in the set, and the answer is \<open>-1\<close> in the first
  case.
\<close>

definition refused :: "chartab \<Rightarrow> pystr \<Rightarrow> bool" where
  "refused T m = (py_int T m = Inl ValueError)"

definition stops :: "chartab \<Rightarrow> pystr \<Rightarrow> bool" where
  "stops T m = (refused T m \<or> allowed (int_value T m))"

definition answer :: "chartab \<Rightarrow> pystr \<Rightarrow> int" where
  "answer T m = (if refused T m then -1 else int_value T m)"

definition spec_task_type_amended :: "chartab \<Rightarrow> pystr \<Rightarrow> int" where
  "spec_task_type_amended T response =
     (if error_signal T response then -1
      else case find (stops T) (line_numerals T response) of
             Some m \<Rightarrow> answer T m
           | None \<Rightarrow>
               (case find (stops T) (all_numerals T response) of
                  Some m \<Rightarrow> answer T m
                | None \<Rightarrow> keyword_heuristic T response))"

text \<open>No integer that the rule may read is refused by \<open>int\<close>.\<close>

definition convertible :: "chartab \<Rightarrow> pystr \<Rightarrow> bool" where
  "convertible T response =
     list_all (\<lambda>m. \<not> refused T m) (line_numerals T response @ all_numerals T response)"

subsection \<open>\<open>classify_task\<close> and its keyword fallback\<close>

datatype 'a call_result = Returns 'a | Raises pystr

text \<open>\<open>_classify_by_keywords\<close> (lines 226--249), with its own keyword lists.\<close>

definition prompt_knowledge_keywords :: "pystr list" where
  "prompt_knowledge_keywords =
     [[20160, 20040, 26159], [20160, 20040], [22914, 20309], [20026, 20160, 20040],
      [35299, 37322], [23450, 20041], [21407, 29702], [26426, 21046], [20171, 32461],
      [35828, 26126]]"

definition prompt_modeling_keywords :: "pystr list" where
  "prompt_modeling_keywords =
     [[26500, 24314], [29983, 25104], [21019, 24314], [24314, 31435], [24314, 27169],
      [25552, 20132], [35745, 31639], [21442, 25968]]"

definition classify_by_keywords :: "chartab \<Rightarrow> pystr \<Rightarrow> int" where
  "classify_by_keywords T user_prompt =
     (let prompt_lower = lower T user_prompt in
      if any_in prompt_knowledge_keywords prompt_lower then 1
      else if any_in prompt_modeling_keywords prompt_lower then 2
      else if any_in result_keywords prompt_lower \<and> any_in context_keywords prompt_lower then 3
      else 1)"

text \<open>
  \<open>classify_task\<close> (lines 30--128). \<open>aborted\<close> is what \<open>is_session_aborted\<close> answers at
  line 58, and \<open>llm\<close> is how the body of the \<open>try\<close> ends: with the response of the model,
  or with an exception whose text is given.
\<close>

definition classify_task :: "chartab \<Rightarrow> bool \<Rightarrow> pystr call_result \<Rightarrow> pystr \<Rightarrow> int" where
  "classify_task T aborted llm user_prompt =
     (if aborted then -100
      else case llm of
             Returns response \<Rightarrow> extract_task_type_from_response T response
           | Raises e \<Rightarrow>
               (let error_str = lower T e in
                if contains (str ''timeout'') error_str \<or> contains (str ''time out'') error_str
                  then -101
                else if contains (str ''connection'') error_str
                        \<or> contains (str ''network'') error_str
                  then -102
                else if contains (str ''accountoverdue'') error_str
                        \<or> contains (str ''403'') error_str
                        \<or> contains (str ''forbidden'') error_str
                  then -103
                else classify_by_keywords T user_prompt))"

section \<open>Abort flags and the progress buffer (api/progress.py)\<close>

type_synonym abort_flags = "pystr \<rightharpoonup> bool"

definition abort_session :: "abort_flags \<Rightarrow> pystr \<Rightarrow> abort_flags" where
  "abort_session flags sid = flags(sid \<mapsto> True)"

definition is_session_aborted :: "abort_flags \<Rightarrow> pystr \<Rightarrow> bool" where
  "is_session_aborted flags sid = (case flags sid of None \<Rightarrow> False | Some b \<Rightarrow> b)"

definition clear_abort_flag :: "abort_flags \<Rightarrow> pystr \<Rightarrow> abort_flags" where
  "clear_abort_flag flags sid = flags(sid := None)"

text \<open>
  A turn enters \<open>AgentOrchestrator.process_task\<close> twice: for the classification
  (\<open>instruction_mode = 0\<close>) and, when the task code is \<open>-1\<close>, \<open>2\<close> or \<open>3\<close>, for the handler.
  Each entry clears the flag of the session (lines 62--64). The classification reads the
  flag once, before the LLM call (task\_classifier.py, line 58). \<open>abort_in_flight\<close> says
  whether the abort endpoint is served while that call is awaited.
\<close>

definition process_task_entry :: "abort_flags \<Rightarrow> pystr \<Rightarrow> abort_flags" where
  "process_task_entry flags sid = (if sid \<noteq> [] then clear_abort_flag flags sid else flags)"

definition classification_stage ::
  "chartab \<Rightarrow> abort_flags \<Rightarrow> pystr \<Rightarrow> bool \<Rightarrow> pystr call_result \<Rightarrow> pystr \<Rightarrow> int \<times> abort_flags" where
  "classification_stage T flags sid abort_in_flight llm user_prompt =
     (let flags = process_task_entry flags sid;
          aborted = (sid \<noteq> [] \<and> is_session_aborted flags sid);
          flags = (if \<not> aborted \<and> abort_in_flight then abort_session flags sid else flags)
      in (classify_task T aborted llm user_prompt, flags))"

text \<open>
  The flags during a turn of \<open>agent_chat\<close>: the task code, the flags after the
  classification, and the flags once the handler has been entered. The handlers of the
  codes \<open>-1\<close>, \<open>2\<close> and \<open>3\<close> are entered through \<open>process_task\<close> (code \<open>3\<close> only with a
  history, codes \<open>2\<close> and \<open>3\<close> only past the credit check); the handler of code \<open>1\<close> is
  \<open>run_knowledge_query_with_sources\<close>, which does not pass through \<open>process_task\<close>.
\<close>

definition turn_flags ::
  "chartab \<Rightarrow> abort_flags \<Rightarrow> pystr \<Rightarrow> bool \<Rightarrow> pystr call_result \<Rightarrow> pystr \<Rightarrow> bool \<Rightarrow> bool
     \<Rightarrow> int \<times> abort_flags \<times> abort_flags" where
  "turn_flags T flags sid abort_in_flight llm user_prompt history_empty preflight_ok =
     (let (code, flags1) = classification_stage T flags sid abort_in_flight llm user_prompt;
          enters = (code = -1 \<or> ((code = 2 \<or> (code = 3 \<and> \<not> history_empty)) \<and> preflight_ok));
          flags2 = (if enters then process_task_entry flags1 sid else flags1)
      in (code, flags1, flags2))"

subsection \<open>The progress buffer and its subscribers\<close>

record progress_data =
  p_session_id :: pystr
  p_message :: pystr
  p_stage :: string
  p_timestamp :: pystr
  p_metadata :: "(pystr \<times> pystr) list"

text \<open>\<open>progress_storage\<close> is a \<open>defaultdict(list)\<close>: reading a missing key gives \<open>[]\<close>.\<close>

type_synonym progress_storage = "pystr \<rightharpoonup> progress_data list"

definition stored :: "progress_storage \<Rightarrow> pystr \<Rightarrow> progress_data list" where
  "stored st sid = (case st sid of None \<Rightarrow> [] | Some l \<Rightarrow> l)"

definition max_messages_per_session :: nat where
  "max_messages_per_session = 100"

text \<open>\<open>ProgressReporter.report\<close> (lines 62--93).\<close>

definition report :: "progress_storage \<Rightarrow> pystr \<Rightarrow> progress_data \<Rightarrow> progress_storage" where
  "report st sid progress_data =
     (let l = stored st sid @ [progress_data]
      in st(sid \<mapsto> (if length l > max_messages_per_session
                     then py_suffix max_messages_per_session l else l)))"

text \<open>
  \<open>progress_stream_generator\<close> (lines 202--248). What a subscriber is sent: \<open>data:\<close>
  lines carrying an event, and heartbeat comments. The generator is suspended at every
  \<open>yield\<close> and in \<open>sleep\<close>, and \<open>report\<close> can run while it is suspended.
\<close>

datatype sse = Data progress_data | Heartbeat

definition connected_message :: "pystr \<Rightarrow> pystr \<Rightarrow> pystr \<Rightarrow> progress_data" where
  "connected_message sid connection_id now =
     \<lparr>p_session_id = sid,
      p_message = [36827, 24230, 30417, 21548, 24050, 21551, 21160],
      p_stage = ''connected'', p_timestamp = now,
      p_metadata = [(str ''connection_id'', connection_id)]\<rparr>"

text \<open>
  The code before the loop (lines 212--230), from the moment the generator resumes after
  the confirmation message. \<open>st\<close> is the buffer at that moment, of which the last ten
  events are replayed; \<open>during\<close> are the events reported while the replay is sent, one
  \<open>yield\<close> after the other; \<open>last_message_count\<close> is read after that.
\<close>

definition subscribe ::
  "progress_storage \<Rightarrow> pystr \<Rightarrow> pystr \<Rightarrow> pystr \<Rightarrow> progress_data list
     \<Rightarrow> sse list \<times> nat \<times> progress_storage" where
  "subscribe st sid connection_id now during =
     (let replay = (case st sid of None \<Rightarrow> [] | Some l \<Rightarrow> py_suffix 10 l);
          st' = foldl (\<lambda>st e. report st sid e) st during;
          last_message_count = length (stored st' sid)
      in (Data (connected_message sid connection_id now) # map Data replay,
          last_message_count,
          st'(sid \<mapsto> stored st' sid)))"

text \<open>
  One pass of the loop body (lines 232--248). The events of a pass are sent one \<open>yield\<close>
  after the other, then the generator sleeps and sends a heartbeat; what is reported in
  the meantime is read by the next pass.
\<close>

definition poll :: "progress_storage \<Rightarrow> pystr \<Rightarrow> nat \<Rightarrow> sse list \<times> nat" where
  "poll st sid last_message_count =
     (let current_message_count = length (stored st sid)
      in if current_message_count > last_message_count
         then (map Data (drop last_message_count (stored st sid)) @ [Heartbeat],
               current_message_count)
         else ([Heartbeat], last_message_count))"

text \<open>
  A run of the generator against the reporters of its session: \<open>Poll\<close> is a pass of the
  loop, \<open>Publish\<close> a call of \<open>report\<close>. The reports before the first pass are those that
  arrive while the replay is sent. When nothing is replayed the generator is not suspended
  between the replay and the loop, and a run of the code begins with a pass.
\<close>

datatype action = Publish progress_data | Poll

fun during_replay :: "action list \<Rightarrow> progress_data list" where
  "during_replay (Publish e # as) = e # during_replay as"
| "during_replay as = []"

fun from_first_pass :: "action list \<Rightarrow> action list" where
  "from_first_pass (Publish e # as) = from_first_pass as"
| "from_first_pass as = as"

fun run_stream :: "progress_storage \<Rightarrow> pystr \<Rightarrow> nat \<Rightarrow> action list \<Rightarrow> sse list" where
  "run_stream st sid n [] = []"
| "run_stream st sid n (Publish e # as) = run_stream (report st sid e) sid n as"
| "run_stream st sid n (Poll # as) =
     (let (out, n') = poll st sid n in out @ run_stream st sid n' as)"

definition stream :: "progress_storage \<Rightarrow> pystr \<Rightarrow> pystr \<Rightarrow> pystr \<Rightarrow> action list \<Rightarrow> sse list" where
  "stream st sid connection_id now as =
     (let (out, n, st') = subscribe st sid connection_id now (during_replay as)
      in out @ run_stream st' sid n (from_first_pass as))"

section \<open>Billing counter (services/billing/billing\_tracker.py)\<close>

text \<open>
  One entry per session id. The fields \<open>start_time\<close> and \<open>details\<close> of an entry do not
  enter the cost and are left out.
\<close>

record billing_entry =
  llm_calls :: nat
  rshub_tasks :: nat

type_synonym billing = "pystr \<rightharpoonup> billing_entry"

definition init_session :: "billing \<Rightarrow> pystr \<Rightarrow> billing" where
  "init_session sessions sid =
     (case sessions sid of
        None \<Rightarrow> sessions(sid \<mapsto> \<lparr>llm_calls = 0, rshub_tasks = 0\<rparr>)
      | Some _ \<Rightarrow> sessions)"

definition track_llm_call :: "pystr \<Rightarrow> billing \<Rightarrow> billing" where
  "track_llm_call sid sessions =
     (let sessions = init_session sessions sid
      in case sessions sid of
           None \<Rightarrow> sessions
         | Some e \<Rightarrow> sessions(sid \<mapsto> e\<lparr>llm_calls := llm_calls e + 1\<rparr>))"

definition track_rshub_task :: "pystr \<Rightarrow> billing \<Rightarrow> billing" where
  "track_rshub_task sid sessions =
     (let sessions = init_session sessions sid
      in case sessions sid of
           None \<Rightarrow> sessions
         | Some e \<Rightarrow> sessions(sid \<mapsto> e\<lparr>rshub_tasks := rshub_tasks e + 1\<rparr>))"

record cost_info =
  counted_llm_calls :: nat
  counted_rshub_tasks :: nat
  llm_cost :: real
  rshub_cost :: real
  total_cost :: real

definition calculate_cost :: "billing \<Rightarrow> pystr \<Rightarrow> real \<Rightarrow> real \<Rightarrow> cost_info" where
  "calculate_cost sessions sid llm_cost_factor rshub_cost_factor =
     (case sessions sid of
        None \<Rightarrow> \<lparr>counted_llm_calls = 0, counted_rshub_tasks = 0, llm_cost = 0,
                 rshub_cost = 0, total_cost = 0\<rparr>
      | Some e \<Rightarrow>
          (let llm_cost = real (llm_calls e) * llm_cost_factor;
               rshub_cost = real (rshub_tasks e) * rshub_cost_factor
           in \<lparr>counted_llm_calls = llm_calls e, counted_rshub_tasks = rshub_tasks e,
               llm_cost = llm_cost, rshub_cost = rshub_cost,
               total_cost = llm_cost + rshub_cost\<rparr>))"

definition clear_session :: "billing \<Rightarrow> pystr \<Rightarrow> billing" where
  "clear_session sessions sid = sessions(sid := None)"

section \<open>The chat turn (api/routers/chat\_router.py, \<open>agent_chat\<close>)\<close>

text \<open>\<open>AuthService.get_rshub_token\<close>; \<open>None\<close> stands for the \<open>ValueError\<close>.\<close>

definition get_rshub_token :: "settings \<Rightarrow> pystr option \<Rightarrow> pystr option" where
  "get_rshub_token cfg request_token =
     (case DEPLOYMENT_MODE cfg of
        Production \<Rightarrow>
          (case request_token of
             None \<Rightarrow> None
           | Some t \<Rightarrow> if t = [] then None else if length t < 10 then None else Some t)
      | Local \<Rightarrow>
          (if RSHUB_TOKEN cfg \<noteq> [] then Some (RSHUB_TOKEN cfg)
           else case request_token of
                  None \<Rightarrow> None
                | Some t \<Rightarrow> if t = [] then None else Some t))"

record request =
  req_message :: pystr
  req_session_id :: "pystr option"
  req_token :: "pystr option"
  req_chat_id :: "pystr option"

text \<open>
  What the first stage hands back: an integer, or a value of another type (the text that
  \<open>process_task\<close> returns when it has caught an exception).
\<close>

datatype pyval = IntV int | StrV pystr

text \<open>
  A call into the agent, seen from the router: how it ends, and how many LLM calls and
  remote-job submissions it has added to the billing counter of the session by then.
\<close>

record 'a call =
  ends :: "'a call_result"
  llm_tracked :: nat
  rshub_tracked :: nat

definition tracked :: "'a call \<Rightarrow> pystr \<Rightarrow> billing \<Rightarrow> billing" where
  "tracked c sid sessions =
     ((track_rshub_task sid) ^^ rshub_tracked c) (((track_llm_call sid) ^^ llm_tracked c) sessions)"

text \<open>
  Everything outside the router that a turn meets: the session found for the request,
  the generated session id, the two stages of the agent, the answers of the credit
  service, and the result of writing the session.
\<close>

record turn_world =
  load_result :: "session_data option"
  latest_result :: "session_data option"
  new_uuid :: pystr
  stage1 :: "pyval call"
  has_sufficient_credits :: bool
  stage2 :: "int \<Rightarrow> pystr call"
  deduct :: "bool \<times> pystr \<times> real option"
  written :: op_result

text \<open>The calls that leave the router, in the order they are made.\<close>

datatype event =
    Report_progress string
  | Load_session pystr pystr
  | Find_latest_session pystr
  | Run_analysis_agent int
  | Run_knowledge_query
  | Check_credits pystr nat
  | Update_credits pystr real
  | Create_session pystr
  | Update_session pystr "pystr option"

text \<open>The fixed texts of the responses are named, not spelled out.\<close>

datatype reply =
    Aborted_text | Timeout_text | Network_text | Api_text | Guidance_text
  | Answer pystr | Error_text pystr

record credit_info =
  local_mode :: bool
  credit_deducted :: real
  remaining_credits :: "real option"
  deduct_success :: "bool option"
  error_message :: "pystr option"

record chat_response =
  response :: reply
  status :: string
  task_type :: "int option"
  resp_session_id :: pystr
  billing_info :: "(cost_info \<times> credit_info) option"
  resp_chat_id :: "pystr option"
  resp_chat_title :: "pystr option"

datatype outcome = Response chat_response | HTTPException nat

text \<open>Loading the history (lines 112--152), cut to 30 messages for the context.\<close>

definition context_of :: "chat_message list \<Rightarrow> chat_message list" where
  "context_of all_messages =
     (if length all_messages > 30 then py_prefix 2 all_messages @ py_suffix 28 all_messages
      else all_messages)"

definition load_history ::
  "turn_world \<Rightarrow> pystr \<Rightarrow> pystr option
     \<Rightarrow> pystr option \<times> chat_message list \<times> pystr option \<times> bool \<times> event list" where
  "load_history w rshub_token chat_id =
     (case (case chat_id of None \<Rightarrow> None | Some c \<Rightarrow> if c = [] then None else Some c) of
        Some c \<Rightarrow>
          (case load_result w of
             Some session_data \<Rightarrow>
               (Some c, context_of (messages session_data), Some (title session_data), False,
                [Load_session rshub_token c])
           | None \<Rightarrow> (None, [], None, True, [Load_session rshub_token c]))
      | None \<Rightarrow>
          (case latest_result w of
             Some latest_session \<Rightarrow>
               (Some (session_id latest_session), context_of (messages latest_session),
                Some (title latest_session), False, [Find_latest_session rshub_token])
           | None \<Rightarrow> (None, [], None, True, [Find_latest_session rshub_token])))"

text \<open>
  Settlement: the block that \<open>agent_chat\<close> repeats at lines 249--302, 332--387 and
  496--551.
\<close>

definition settle ::
  "settings \<Rightarrow> turn_world \<Rightarrow> billing \<Rightarrow> pystr \<Rightarrow> pystr
     \<Rightarrow> (cost_info \<times> credit_info) \<times> event list \<times> billing" where
  "settle cfg w sessions sid rshub_token =
     (let cost = calculate_cost sessions sid (LLM_COST_FACTOR cfg) (RSHUB_TASK_COST_FACTOR cfg)
      in case DEPLOYMENT_MODE cfg of
           Production \<Rightarrow>
             (let actual_cost = total_cost cost
              in if actual_cost > 0
                 then (case deduct w of
                         (deducted, deduct_message, remaining) \<Rightarrow>
                           ((cost,
                             \<lparr>local_mode = False, credit_deducted = actual_cost,
                              remaining_credits =
                                Some (case remaining of
                                        None \<Rightarrow> -1
                                      | Some r \<Rightarrow> if r < 0 then -1 else r),
                              deduct_success = Some deducted,
                              error_message =
                                (if deducted then None else Some deduct_message)\<rparr>),
                            [Report_progress ''processing'',
                             Update_credits rshub_token (- actual_cost)],
                            clear_session sessions sid))
                 else ((cost,
                        \<lparr>local_mode = False, credit_deducted = 0, remaining_credits = None,
                         deduct_success = Some True, error_message = None\<rparr>),
                       [], sessions))
         | Local \<Rightarrow>
             ((cost,
               \<lparr>local_mode = True, credit_deducted = 0, remaining_credits = None,
                deduct_success = None, error_message = None\<rparr>),
              [], sessions))"

text \<open>Writing the session (lines 389--412 and 553--576).\<close>

definition write_session ::
  "turn_world \<Rightarrow> bool \<Rightarrow> pystr \<Rightarrow> pystr option \<Rightarrow> pystr option
     \<Rightarrow> pystr option \<times> pystr option \<times> event list" where
  "write_session w is_new_chat rshub_token chat_id chat_title =
     (if is_new_chat
      then (if success (written w)
            then (res_session_id (written w), res_title (written w), [Create_session rshub_token])
            else (chat_id, chat_title, [Create_session rshub_token]))
      else (chat_id, chat_title, [Update_session rshub_token chat_id]))"

text \<open>The handler \<open>except Exception\<close> (lines 596--610).\<close>

definition caught ::
  "pystr \<Rightarrow> billing \<Rightarrow> pystr \<Rightarrow> pystr option \<Rightarrow> pystr option \<Rightarrow> event list
     \<Rightarrow> outcome \<times> event list \<times> billing" where
  "caught e sessions sid chat_id chat_title evs =
     (Response \<lparr>response = Error_text e, status = ''error'', task_type = None,
                resp_session_id = sid, billing_info = None,
                resp_chat_id = chat_id, resp_chat_title = chat_title\<rparr>,
      evs @ [Report_progress ''error''],
      clear_session sessions sid)"

text \<open>The responses of lines 178--224, which return at once.\<close>

definition upstream_error ::
  "int \<Rightarrow> pystr \<Rightarrow> pystr option \<Rightarrow> pystr option \<Rightarrow> (chat_response \<times> string) option" where
  "upstream_error code sid chat_id chat_title =
     (let r = \<lparr>response = Aborted_text, status = ''user_aborted'', task_type = Some code,
               resp_session_id = sid, billing_info = None,
               resp_chat_id = chat_id, resp_chat_title = chat_title\<rparr>
      in if code = -100 then Some (r, ''aborted'')
         else if code = -101
           then Some (r\<lparr>response := Timeout_text, status := ''llm_timeout''\<rparr>, ''error'')
         else if code = -102
           then Some (r\<lparr>response := Network_text, status := ''network_error''\<rparr>, ''error'')
         else if code = -103
           then Some (r\<lparr>response := Api_text, status := ''api_error''\<rparr>, ''error'')
         else None)"

text \<open>The second stage and what follows it (lines 448--591).\<close>

definition second_stage ::
  "settings \<Rightarrow> turn_world \<Rightarrow> billing \<Rightarrow> pystr \<Rightarrow> pystr \<Rightarrow> pyval \<Rightarrow> bool
     \<Rightarrow> pystr option \<Rightarrow> pystr option \<Rightarrow> event list \<Rightarrow> outcome \<times> event list \<times> billing" where
  "second_stage cfg w sessions sid rshub_token classified is_new_chat chat_id chat_title evs =
     (let safe_task_type = (case classified of IntV i \<Rightarrow> i | StrV _ \<Rightarrow> 1);
          evs = evs @ [Report_progress ''processing'',
                       if safe_task_type = 1 then Run_knowledge_query
                       else Run_analysis_agent safe_task_type];
          c = stage2 w safe_task_type;
          sessions = tracked c sid sessions
      in case ends c of
           Raises e \<Rightarrow> caught e sessions sid chat_id chat_title evs
         | Returns result \<Rightarrow>
             (case settle cfg w sessions sid rshub_token of
                (info, evs_settle, sessions) \<Rightarrow>
                  (case write_session w is_new_chat rshub_token chat_id chat_title of
                     (chat_id, chat_title, evs_write) \<Rightarrow>
                       (Response \<lparr>response = Answer result, status = ''success'',
                                  task_type = Some safe_task_type, resp_session_id = sid,
                                  billing_info = Some info,
                                  resp_chat_id = chat_id, resp_chat_title = chat_title\<rparr>,
                        evs @ evs_settle @ evs_write @ [Report_progress ''completed''],
                        sessions))))"

text \<open>
  \<open>agent_chat\<close> (lines 64--615). The result is the response or the HTTP error, the calls
  made, and the billing counters afterwards.
\<close>

definition agent_chat ::
  "settings \<Rightarrow> turn_world \<Rightarrow> request \<Rightarrow> billing \<Rightarrow> outcome \<times> event list \<times> billing" where
  "agent_chat cfg w req sessions =
     (let sid = (case req_session_id req of
                   None \<Rightarrow> new_uuid w
                 | Some s \<Rightarrow> if s = [] then new_uuid w else s)
      in case get_rshub_token cfg (req_token req) of
           None \<Rightarrow> (HTTPException 401, [], sessions)
         | Some rshub_token \<Rightarrow>
             (case load_history w rshub_token (req_chat_id req) of
                (chat_id, chat_history, chat_title, is_new_chat, evs_load) \<Rightarrow>
             (let sessions = init_session sessions sid;
                  evs = evs_load @ [Report_progress ''init'', Report_progress ''analyzing'',
                                    Run_analysis_agent 0];
                  sessions = tracked (stage1 w) sid sessions
              in case ends (stage1 w) of
                   Raises e \<Rightarrow> caught e sessions sid chat_id chat_title evs
                 | Returns classified \<Rightarrow>
                     (let evs = evs @ [Report_progress ''analyzing''];
                          code = (case classified of IntV i \<Rightarrow> Some i | StrV _ \<Rightarrow> None)
                      in case (case code of
                                 None \<Rightarrow> None
                               | Some i \<Rightarrow> upstream_error i sid chat_id chat_title) of
                           Some (r, stage) \<Rightarrow> (Response r, evs @ [Report_progress stage], sessions)
                         | None \<Rightarrow>
                             if code = Some 3 \<and> chat_history = [] then
                               (case settle cfg w sessions sid rshub_token of
                                  (info, evs_settle, sessions) \<Rightarrow>
                                    (Response
                                       \<lparr>response = Guidance_text, status = ''guidance_provided'',
                                        task_type = Some 3, resp_session_id = sid,
                                        billing_info = Some info,
                                        resp_chat_id = chat_id, resp_chat_title = chat_title\<rparr>,
                                     evs @ [Report_progress ''processing''] @ evs_settle,
                                     sessions))
                             else if code = Some (-1) then
                               (let evs = evs @ [Report_progress ''processing'',
                                                 Run_analysis_agent (-1)];
                                    c = stage2 w (-1);
                                    sessions = tracked c sid sessions
                                in case ends c of
                                     Raises e \<Rightarrow> caught e sessions sid chat_id chat_title evs
                                   | Returns result \<Rightarrow>
                                       (case settle cfg w sessions sid rshub_token of
                                          (info, evs_settle, sessions) \<Rightarrow>
                                       (case write_session w is_new_chat rshub_token chat_id
                                               chat_title of
                                          (chat_id, chat_title, evs_write) \<Rightarrow>
                                            (Response
                                               \<lparr>response = Answer result,
                                                status = ''general_answer'',
                                                task_type = Some (-1), resp_session_id = sid,
                                                billing_info = Some info,
                                                resp_chat_id = chat_id,
                                                resp_chat_title = chat_title\<rparr>,
                                             evs @ evs_settle @ evs_write,
                                             sessions))))
                             else
                               (case DEPLOYMENT_MODE cfg of
                                  Production \<Rightarrow>
                                    (let evs = evs @ [Report_progress ''processing'',
                                                      Check_credits rshub_token 1]
                                     in if \<not> has_sufficient_credits w
                                        then (HTTPException 402,
                                              evs @ [Report_progress ''error''], sessions)
                                        else second_stage cfg w sessions sid rshub_token
                                               classified is_new_chat chat_id chat_title evs)
                                | Local \<Rightarrow>
                                    second_stage cfg w sessions sid rshub_token classified
                                      is_new_chat chat_id chat_title evs)))))"

section \<open>Notions used in the statements\<close>


text \<open>Concrete inputs, used where a property is evaluated.\<close>

definition example_clock :: "nat \<Rightarrow> pystr" where
  "example_clock n = str ''2025-01-01T00:00:00''"

definition example_settings :: "deployment_mode \<Rightarrow> bool \<Rightarrow> settings" where
  "example_settings mode cache =
     \<lparr>DEPLOYMENT_MODE = mode, ENABLE_LOCAL_SESSION_CACHE = cache, LLM_COST_FACTOR = 1,
      RSHUB_TASK_COST_FACTOR = 1, RSHUB_TOKEN = []\<rparr>"

definition example_world :: "bool \<Rightarrow> bool \<Rightarrow> world" where
  "example_world local_ok rshub_ok =
     \<lparr>local_write_ok = local_ok, rshub_write_ok = rshub_ok, rshub_read_ok = True, sweep = id\<rparr>"


definition example_token :: pystr where
  "example_token = str ''0123456789ab''"


definition empty_backends :: backends where
  "empty_backends = \<lparr>local_store = Map.empty, rshub_store = Map.empty\<rparr>"

text \<open>The session that \<open>create_session\<close> builds.\<close>

definition created_session :: "pystr \<Rightarrow> pystr \<Rightarrow> pystr \<Rightarrow> pystr \<Rightarrow> (nat \<Rightarrow> pystr) \<Rightarrow> session_data" where
  "created_session new_id new_title p r clk =
     \<lparr>session_id = new_id, title = new_title, created_at = clk 0, updated_at = clk 1,
      messages = [user_message p (clk 2), assistant_message r (clk 3)]\<rparr>"

text \<open>Sorting the calls of a turn.\<close>

fun is_update_credits :: "event \<Rightarrow> bool" where
  "is_update_credits (Update_credits t d) = True"
| "is_update_credits _ = False"

fun is_check_credits :: "event \<Rightarrow> bool" where
  "is_check_credits (Check_credits t n) = True"
| "is_check_credits _ = False"

fun is_handler :: "event \<Rightarrow> bool" where
  "is_handler Run_knowledge_query = True"
| "is_handler (Run_analysis_agent m) = (m \<noteq> 0)"
| "is_handler _ = False"

text \<open>What the billing counter of a session holds, zero when it has no entry.\<close>

definition counted :: "billing \<Rightarrow> pystr \<Rightarrow> nat \<times> nat" where
  "counted sessions sid =
     (case sessions sid of None \<Rightarrow> (0, 0) | Some e \<Rightarrow> (llm_calls e, rshub_tasks e))"

text \<open>The session id of a turn: the one of the request, or a fresh one.\<close>

definition turn_session_id :: "turn_world \<Rightarrow> request \<Rightarrow> pystr" where
  "turn_session_id w req =
     (case req_session_id req of None \<Rightarrow> new_uuid w | Some s \<Rightarrow> if s = [] then new_uuid w else s)"

definition is_credit_call :: "event \<Rightarrow> bool" where
  "is_credit_call e = (is_update_credits e \<or> is_check_credits e)"

text \<open>\<open>safe_task_type\<close> of lines 451--455.\<close>

definition safe_task_type :: "pyval \<Rightarrow> int" where
  "safe_task_type classified = (case classified of IntV i \<Rightarrow> i | StrV _ \<Rightarrow> 1)"

text \<open>The billing counters when the first stage has returned, and the calls made so far.\<close>

definition after_stage1 :: "turn_world \<Rightarrow> request \<Rightarrow> billing \<Rightarrow> billing" where
  "after_stage1 w req B =
     tracked (stage1 w) (turn_session_id w req) (init_session B (turn_session_id w req))"

definition first_events :: "event list \<Rightarrow> event list" where
  "first_events el = el @ [Report_progress ''init'', Report_progress ''analyzing'',
                           Run_analysis_agent 0]"

text \<open>The classified values that reach the credit check.\<close>

definition reaches_gate :: "pyval \<Rightarrow> chat_message list \<Rightarrow> bool" where
  "reaches_gate classified hist =
     (case classified of
        StrV _ \<Rightarrow> True
      | IntV i \<Rightarrow> i \<noteq> -100 \<and> i \<noteq> -101 \<and> i \<noteq> -102 \<and> i \<noteq> -103 \<and> i \<noteq> -1
                  \<and> (i = 3 \<longrightarrow> hist \<noteq> []))"

text \<open>
  What settlement means for a turn that answered with \<open>r\<close>, made the calls \<open>evs\<close> and left
  the billing counters \<open>B'\<close>, when the counter of the session stood at \<open>llm\<close> LLM calls and
  \<open>jobs\<close> remote jobs.
\<close>

definition settlement_ok ::
  "settings \<Rightarrow> pystr \<Rightarrow> pystr \<Rightarrow> nat \<Rightarrow> nat \<Rightarrow> chat_response \<Rightarrow> event list \<Rightarrow> billing \<Rightarrow> bool" where
  "settlement_ok cfg tok sid llm jobs r evs B' =
     (\<exists>cost ci. billing_info r = Some (cost, ci)
        \<and> counted_llm_calls cost = llm
        \<and> counted_rshub_tasks cost = jobs
        \<and> total_cost cost = real llm * LLM_COST_FACTOR cfg + real jobs * RSHUB_TASK_COST_FACTOR cfg
        \<and> (case DEPLOYMENT_MODE cfg of
              Production \<Rightarrow>
                if 0 < total_cost cost
                then filter is_update_credits evs = [Update_credits tok (- total_cost cost)]
                     \<and> B' sid = None
                else filter is_update_credits evs = []
            | Local \<Rightarrow> filter is_credit_call evs = []))"

text \<open>
  A concrete turn: no earlier session, one LLM call counted by the classification, two by
  the handler, a credit service that deducts.
\<close>

definition example_call :: "'a call_result \<Rightarrow> nat \<Rightarrow> nat \<Rightarrow> 'a call" where
  "example_call e k m = \<lparr>ends = e, llm_tracked = k, rshub_tracked = m\<rparr>"

definition example_answers :: "pystr call_result \<Rightarrow> int \<Rightarrow> pystr call" where
  "example_answers e m = example_call e 2 0"

definition example_turn :: "pyval call_result \<Rightarrow> bool \<Rightarrow> pystr call_result \<Rightarrow> turn_world" where
  "example_turn classified credits handler =
     \<lparr>load_result = None, latest_result = None, new_uuid = str ''s-1'',
      stage1 = example_call classified 1 0, has_sufficient_credits = credits,
      stage2 = example_answers handler, deduct = (True, str ''ok'', Some 97),
      written = \<lparr>success = True, res_session_id = Some (str ''1700000000000''),
                 res_title = Some (str ''soil''), local_cache = Some True,
                 rshub_sync = Some True, error = None\<rparr>\<rparr>"

definition example_request :: request where
  "example_request =
     \<lparr>req_message = str ''hello'', req_session_id = None, req_token = Some example_token,
      req_chat_id = None\<rparr>"

text \<open>The call that starts the handler of a task code.\<close>

definition handler_call :: "int \<Rightarrow> event" where
  "handler_call m = (if m = 1 then Run_knowledge_query else Run_analysis_agent m)"

text \<open>The task codes of the wire contract, without \<open>0\<close>.\<close>

definition task_codes :: "int set" where
  "task_codes = {-103, -102, -101, -100, -1, 1, 2, 3}"

definition example_response :: chat_response where
  "example_response =
     \<lparr>response = Answer (str ''answer''), status = ''success'', task_type = Some 1,
      resp_session_id = str ''s-1'',
      billing_info =
        Some (\<lparr>counted_llm_calls = 3, counted_rshub_tasks = 0, llm_cost = 3,
               rshub_cost = 0, total_cost = 3\<rparr>,
              \<lparr>local_mode = False, credit_deducted = 3, remaining_credits = Some 97,
               deduct_success = Some True, error_message = None\<rparr>),
      resp_chat_id = Some (str ''1700000000000''), resp_chat_title = Some (str ''soil'')\<rparr>"

definition example_calls :: "event list" where
  "example_calls =
     [Find_latest_session example_token, Report_progress ''init'',
      Report_progress ''analyzing'', Run_analysis_agent 0, Report_progress ''analyzing'',
      Report_progress ''processing'', Check_credits example_token 1,
      Report_progress ''processing'', Run_knowledge_query,
      Report_progress ''processing'', Update_credits example_token (- 3),
      Create_session example_token, Report_progress ''completed'']"

text \<open>The credit check and the start of a handler, among the calls of a turn.\<close>

definition is_preflight_or_handler :: "event \<Rightarrow> bool" where
  "is_preflight_or_handler e = (is_check_credits e \<or> is_handler e)"

text \<open>A progress buffer that is full, and its events.\<close>

definition example_progress :: "nat \<Rightarrow> progress_data" where
  "example_progress k =
     \<lparr>p_session_id = str ''s-1'', p_message = [48 + k], p_stage = ''processing'',
      p_timestamp = example_clock 0, p_metadata = []\<rparr>"

definition full_storage :: progress_storage where
  "full_storage = [str ''s-1'' \<mapsto> replicate 100 (example_progress 0)]"

text \<open>The lines of a stream that carry an event.\<close>

fun is_data :: "sse \<Rightarrow> bool" where
  "is_data (Data e) = True"
| "is_data Heartbeat = False"

text \<open>The events reported while a subscriber listens, in the order of the reports.\<close>

definition published :: "action list \<Rightarrow> progress_data list" where
  "published as = List.map_filter (\<lambda>a. case a of Publish e \<Rightarrow> Some e | Poll \<Rightarrow> None) as"

section \<open>Properties\<close>

subsection \<open>Session store\<close>




lemma rshub_store_save_local [simp]:
  "rshub_store (snd (save_session_to_local cfg w b sid d)) = rshub_store b"
  by (simp add: save_session_to_local_def)

lemma local_store_save_rshub [simp]:
  "local_store (snd (save_session_to_rshub w b token sid d)) = local_store b"
  by (simp add: save_session_to_rshub_def)

lemma rshub_store_load [simp]:
  "rshub_store (snd (load_session cfg w b token sid)) = rshub_store b"
  by (simp add: load_session_def split: deployment_mode.splits option.splits)










text \<open>
  Claim C6 as stated fails: \<open>create_session\<close> reports success on the local write alone.
  In production mode, with the cache writable and the remote write refused, it reports
  success while the remote store holds nothing.
\<close>

theorem create_session_counterexample:
  "success (fst (create_session (example_settings Production True) (example_world True False)
       empty_backends example_token (str ''hello'') (str ''hi'') (str ''42'') (str ''greeting'')
       example_clock))
   \<and> \<not> rshub_write_ok (example_world True False)
   \<and> rshub_store (snd (create_session (example_settings Production True) (example_world True False)
       empty_backends example_token (str ''hello'') (str ''hi'') (str ''42'') (str ''greeting'')
       example_clock)) (example_token, str ''42'') = None"
  by (simp add: create_session_def save_session_to_local_def save_session_to_rshub_def
                example_settings_def example_world_def empty_backends_def enable_local_cache_def
                Let_def)

text \<open>
  Claim C6, amended. \<open>create_session\<close> writes the cache first and then attempts the
  remote write, in either deployment mode. When the cache write goes through it reports
  success, \<open>rshub_sync\<close> tells whether the remote write was accepted, and when
  \<open>rshub_sync\<close> is true the remote store holds the new session.
\<close>

theorem create_session_local_first:
  assumes "enable_local_cache cfg" and "local_write_ok w"
  shows "success (fst (create_session cfg w b token p r new_id new_title clk))
         \<and> rshub_sync (fst (create_session cfg w b token p r new_id new_title clk))
             = Some (rshub_write_ok w)
         \<and> local_store (snd (create_session cfg w b token p r new_id new_title clk))
             = sweep w ((local_store b)(new_id \<mapsto> created_session new_id new_title p r clk))
         \<and> (rshub_sync (fst (create_session cfg w b token p r new_id new_title clk)) = Some True
              \<longrightarrow> rshub_store (snd (create_session cfg w b token p r new_id new_title clk))
                    (token, new_id)
                  = Some (created_session new_id new_title p r clk))"
  using assms
  by (simp add: create_session_def save_session_to_local_def save_session_to_rshub_def
                created_session_def Let_def)

theorem create_session_local_first_witness:
  "enable_local_cache (example_settings Production True)
   \<and> local_write_ok (example_world True True)
   \<and> success (fst (create_session (example_settings Production True) (example_world True True)
        empty_backends example_token (str ''hello'') (str ''hi'') (str ''42'') (str ''greeting'')
        example_clock))
   \<and> rshub_store (snd (create_session (example_settings Production True) (example_world True True)
        empty_backends example_token (str ''hello'') (str ''hi'') (str ''42'') (str ''greeting'')
        example_clock)) (example_token, str ''42'')
      = Some (created_session (str ''42'') (str ''greeting'') (str ''hello'') (str ''hi'')
               example_clock)"
proof -
  have a: "enable_local_cache (example_settings Production True)"
    by (simp add: enable_local_cache_def example_settings_def)
  have b: "local_write_ok (example_world True True)"
    and c: "rshub_write_ok (example_world True True)"
    by (simp_all add: example_world_def)
  show ?thesis
    using create_session_local_first[OF a b, of empty_backends example_token "str ''hello''"
        "str ''hi''" "str ''42''" "str ''greeting''" example_clock] a b c
    by simp
qed

subsection \<open>The chat turn\<close>

lemma init_session_sid: "init_session B sid sid = Some \<lparr>llm_calls = fst (counted B sid), rshub_tasks = snd (counted B sid)\<rparr>"
  by (simp add: init_session_def counted_def split: option.splits)

lemma track_llm_funpow:
  "B sid = Some e \<Longrightarrow> ((track_llm_call sid) ^^ k) B sid = Some (e\<lparr>llm_calls := llm_calls e + k\<rparr>)"
proof (induction k arbitrary: B e)
  case 0
  then show ?case by simp
next
  case (Suc k)
  have "track_llm_call sid B sid = Some (e\<lparr>llm_calls := llm_calls e + 1\<rparr>)"
    using Suc.prems by (simp add: track_llm_call_def init_session_def)
  then have "((track_llm_call sid) ^^ k) (track_llm_call sid B) sid
              = Some (e\<lparr>llm_calls := llm_calls e + 1\<rparr>\<lparr>llm_calls := llm_calls (e\<lparr>llm_calls := llm_calls e + 1\<rparr>) + k\<rparr>)"
    by (rule Suc.IH)
  then show ?case by (simp add: funpow_swap1)
qed

lemma track_rshub_funpow:
  "B sid = Some e \<Longrightarrow> ((track_rshub_task sid) ^^ k) B sid = Some (e\<lparr>rshub_tasks := rshub_tasks e + k\<rparr>)"
proof (induction k arbitrary: B e)
  case 0
  then show ?case by simp
next
  case (Suc k)
  have "track_rshub_task sid B sid = Some (e\<lparr>rshub_tasks := rshub_tasks e + 1\<rparr>)"
    using Suc.prems by (simp add: track_rshub_task_def init_session_def)
  then have "((track_rshub_task sid) ^^ k) (track_rshub_task sid B) sid
              = Some (e\<lparr>rshub_tasks := rshub_tasks e + 1\<rparr>\<lparr>rshub_tasks := rshub_tasks (e\<lparr>rshub_tasks := rshub_tasks e + 1\<rparr>) + k\<rparr>)"
    by (rule Suc.IH)
  then show ?case by (simp add: funpow_swap1)
qed

lemma tracked_sid:
  "B sid = Some e \<Longrightarrow>
   tracked c sid B sid = Some \<lparr>llm_calls = llm_calls e + llm_tracked c, rshub_tasks = rshub_tasks e + rshub_tracked c\<rparr>"
  by (simp add: tracked_def track_rshub_funpow[OF track_llm_funpow])

lemma counted_tracked:
  "B sid = Some e \<Longrightarrow>
   counted (tracked c sid B) sid = (llm_calls e + llm_tracked c, rshub_tasks e + rshub_tracked c)"
  by (simp add: counted_def tracked_sid)

lemma settle_info:
  "fst (fst (settle cfg w S sid tok)) = calculate_cost S sid (LLM_COST_FACTOR cfg) (RSHUB_TASK_COST_FACTOR cfg)"
  by (simp add: settle_def Let_def split: deployment_mode.splits prod.splits)

lemma settle_events:
  "fst (snd (settle cfg w S sid tok)) =
     (if DEPLOYMENT_MODE cfg = Production
         \<and> 0 < total_cost (calculate_cost S sid (LLM_COST_FACTOR cfg) (RSHUB_TASK_COST_FACTOR cfg))
      then [Report_progress ''processing'',
            Update_credits tok (- total_cost (calculate_cost S sid (LLM_COST_FACTOR cfg) (RSHUB_TASK_COST_FACTOR cfg)))]
      else [])"
  by (simp add: settle_def Let_def split: deployment_mode.splits prod.splits)

lemma settle_billing:
  "snd (snd (settle cfg w S sid tok)) =
     (if DEPLOYMENT_MODE cfg = Production
         \<and> 0 < total_cost (calculate_cost S sid (LLM_COST_FACTOR cfg) (RSHUB_TASK_COST_FACTOR cfg))
      then clear_session S sid else S)"
  by (simp add: settle_def Let_def split: deployment_mode.splits prod.splits)

lemma write_session_events:
  "filter is_update_credits (snd (snd (write_session w n tok c t))) = []"
  "filter is_check_credits (snd (snd (write_session w n tok c t))) = []"
  "filter is_handler (snd (snd (write_session w n tok c t))) = []"
  by (simp_all add: write_session_def)

lemma load_history_events:
  "filter is_update_credits (snd (snd (snd (snd (load_history w tok c))))) = []"
  "filter is_check_credits (snd (snd (snd (snd (load_history w tok c))))) = []"
  "filter is_handler (snd (snd (snd (snd (load_history w tok c))))) = []"
  by (simp_all add: load_history_def split: option.splits)

lemma calculate_cost_counted:
  "counted_llm_calls (calculate_cost S sid lf rf) = fst (counted S sid)"
  "counted_rshub_tasks (calculate_cost S sid lf rf) = snd (counted S sid)"
  "total_cost (calculate_cost S sid lf rf) = real (fst (counted S sid)) * lf + real (snd (counted S sid)) * rf"
  by (simp_all add: calculate_cost_def counted_def Let_def split: option.splits)

lemma upstream_error_status:
  "upstream_error code sid c t = Some (r, stage) \<Longrightarrow>
     status r \<in> {''user_aborted'', ''llm_timeout'', ''network_error'', ''api_error''}"
  by (auto simp: upstream_error_def Let_def split: if_splits)

lemma second_stage_eq:
  "second_stage cfg w S sid tok classified n c t evs =
     (let m = safe_task_type classified;
          evs1 = evs @ [Report_progress ''processing'',
                        if m = 1 then Run_knowledge_query else Run_analysis_agent m];
          S1 = tracked (stage2 w m) sid S
      in case ends (stage2 w m) of
           Raises e \<Rightarrow> caught e S1 sid c t evs1
         | Returns result \<Rightarrow>
             (Response \<lparr>response = Answer result, status = ''success'', task_type = Some m,
                        resp_session_id = sid,
                        billing_info = Some (fst (settle cfg w S1 sid tok)),
                        resp_chat_id = fst (write_session w n tok c t),
                        resp_chat_title = fst (snd (write_session w n tok c t))\<rparr>,
              evs1 @ fst (snd (settle cfg w S1 sid tok)) @ snd (snd (write_session w n tok c t))
                @ [Report_progress ''completed''],
              snd (snd (settle cfg w S1 sid tok))))"
  by (simp add: second_stage_def safe_task_type_def Let_def split_beta split: call_result.splits)

lemma caught_status: "caught e S sid c t evs = (Response r, evs', S') \<Longrightarrow> status r = ''error'' \<and> task_type r = None"
  by (auto simp: caught_def)

lemma init_tracked_counted:
  "counted (tracked c sid (init_session B sid)) sid
     = (fst (counted B sid) + llm_tracked c, snd (counted B sid) + rshub_tracked c)"
  by (simp add: counted_tracked[OF init_session_sid])

lemma tracked_tracked_counted:
  "counted (tracked c2 sid (tracked c sid (init_session B sid))) sid
     = (fst (counted B sid) + llm_tracked c + llm_tracked c2,
        snd (counted B sid) + rshub_tracked c + rshub_tracked c2)"
  by (simp add: counted_tracked[OF tracked_sid[OF init_session_sid]])

lemma agent_chat_raises:
  assumes "get_rshub_token cfg (req_token req) = Some tok"
      and "load_history w tok (req_chat_id req) = (c, hist, t, n, el)"
      and "ends (stage1 w) = Raises e"
  shows "agent_chat cfg w req B
         = caught e (after_stage1 w req B) (turn_session_id w req) c t (first_events el)"
  using assms
  by (simp add: agent_chat_def turn_session_id_def[symmetric] after_stage1_def first_events_def Let_def)

lemma agent_chat_upstream:
  assumes "get_rshub_token cfg (req_token req) = Some tok"
      and "load_history w tok (req_chat_id req) = (c, hist, t, n, el)"
      and "ends (stage1 w) = Returns (IntV i)"
      and "upstream_error i (turn_session_id w req) c t = Some (r, stage)"
  shows "agent_chat cfg w req B
         = (Response r,
            first_events el @ [Report_progress ''analyzing'', Report_progress stage],
            after_stage1 w req B)"
  using assms
  by (simp add: agent_chat_def turn_session_id_def[symmetric] after_stage1_def first_events_def Let_def)

lemma agent_chat_guidance:
  assumes "get_rshub_token cfg (req_token req) = Some tok"
      and "load_history w tok (req_chat_id req) = (c, [], t, n, el)"
      and "ends (stage1 w) = Returns (IntV 3)"
  shows "agent_chat cfg w req B
         = (Response \<lparr>response = Guidance_text, status = ''guidance_provided'',
                      task_type = Some 3, resp_session_id = turn_session_id w req,
                      billing_info =
                        Some (fst (settle cfg w (after_stage1 w req B) (turn_session_id w req) tok)),
                      resp_chat_id = c, resp_chat_title = t\<rparr>,
            first_events el @ [Report_progress ''analyzing'', Report_progress ''processing'']
              @ fst (snd (settle cfg w (after_stage1 w req B) (turn_session_id w req) tok)),
            snd (snd (settle cfg w (after_stage1 w req B) (turn_session_id w req) tok)))"
  using assms
  by (simp add: agent_chat_def turn_session_id_def[symmetric] after_stage1_def first_events_def
                Let_def split_beta upstream_error_def)

lemma agent_chat_general:
  assumes "get_rshub_token cfg (req_token req) = Some tok"
      and "load_history w tok (req_chat_id req) = (c, hist, t, n, el)"
      and "ends (stage1 w) = Returns (IntV (-1))"
  shows "agent_chat cfg w req B
         = (let sid = turn_session_id w req;
                evs = first_events el @ [Report_progress ''analyzing'',
                        Report_progress ''processing'', Run_analysis_agent (-1)];
                S = tracked (stage2 w (-1)) sid (after_stage1 w req B)
            in case ends (stage2 w (-1)) of
                 Raises e \<Rightarrow> caught e S sid c t evs
               | Returns result \<Rightarrow>
                   (Response \<lparr>response = Answer result, status = ''general_answer'',
                              task_type = Some (-1), resp_session_id = sid,
                              billing_info = Some (fst (settle cfg w S sid tok)),
                              resp_chat_id = fst (write_session w n tok c t),
                              resp_chat_title = fst (snd (write_session w n tok c t))\<rparr>,
                    evs @ fst (snd (settle cfg w S sid tok))
                      @ snd (snd (write_session w n tok c t)),
                    snd (snd (settle cfg w S sid tok))))"
  using assms
  by (simp add: agent_chat_def turn_session_id_def[symmetric] after_stage1_def first_events_def
                Let_def split_beta upstream_error_def split: call_result.splits)

lemma agent_chat_gate:
  assumes "get_rshub_token cfg (req_token req) = Some tok"
      and "load_history w tok (req_chat_id req) = (c, hist, t, n, el)"
      and "ends (stage1 w) = Returns classified"
      and "reaches_gate classified hist"
  shows "agent_chat cfg w req B
         = (let sid = turn_session_id w req;
                evs = first_events el @ [Report_progress ''analyzing'']
            in case DEPLOYMENT_MODE cfg of
                 Production \<Rightarrow>
                   if \<not> has_sufficient_credits w
                   then (HTTPException 402,
                         evs @ [Report_progress ''processing'', Check_credits tok 1,
                                Report_progress ''error''],
                         after_stage1 w req B)
                   else second_stage cfg w (after_stage1 w req B) sid tok classified n c t
                          (evs @ [Report_progress ''processing'', Check_credits tok 1])
               | Local \<Rightarrow>
                   second_stage cfg w (after_stage1 w req B) sid tok classified n c t evs)"
proof (cases classified)
  case (StrV s)
  with assms show ?thesis
    by (simp add: agent_chat_def turn_session_id_def[symmetric] after_stage1_def
                  first_events_def Let_def split: deployment_mode.splits)
next
  case (IntV i)
  with assms have up: "upstream_error i (turn_session_id w req) c t = None"
    and g: "(i = 3 \<and> hist = []) = False" and "i \<noteq> -1"
    by (auto simp: reaches_gate_def upstream_error_def Let_def)
  with assms IntV show ?thesis
    by (simp add: agent_chat_def turn_session_id_def[symmetric] after_stage1_def
                  first_events_def Let_def g split: deployment_mode.splits)
qed

lemma load_history_clean:
  assumes "load_history w tok cid = (c, hist, t, n, el)"
  shows "filter is_update_credits el = []" and "filter is_check_credits el = []"
    and "filter is_handler el = []"
  using load_history_events[of w tok cid] assms by simp_all

text \<open>What a settlement in the middle of a turn leaves in the list of calls.\<close>

lemma settled_updates:
  assumes "filter is_update_credits pre = []" and "filter is_update_credits post = []"
  shows "filter is_update_credits (pre @ fst (snd (settle cfg w S sid tok)) @ post)
         = (if DEPLOYMENT_MODE cfg = Production
               \<and> 0 < total_cost (calculate_cost S sid (LLM_COST_FACTOR cfg) (RSHUB_TASK_COST_FACTOR cfg))
            then [Update_credits tok
                    (- total_cost (calculate_cost S sid (LLM_COST_FACTOR cfg) (RSHUB_TASK_COST_FACTOR cfg)))]
            else [])"
  using assms by (simp add: settle_events)

lemma settled_local:
  assumes "DEPLOYMENT_MODE cfg = Local"
  shows "fst (snd (settle cfg w S sid tok)) = []"
  using assms by (simp add: settle_events)

lemma settlement_okI:
  assumes r: "billing_info r = Some (fst (settle cfg w S sid tok))"
      and evs: "evs = pre @ fst (snd (settle cfg w S sid tok)) @ post"
      and B': "B' = snd (snd (settle cfg w S sid tok))"
      and pre: "filter is_update_credits pre = []" "DEPLOYMENT_MODE cfg = Local \<Longrightarrow> filter is_check_credits pre = []"
      and post: "filter is_update_credits post = []" "filter is_check_credits post = []"
      and cnt: "counted S sid = (llm, jobs)"
  shows "settlement_ok cfg tok sid llm jobs r evs B'"
proof -
  let ?cost = "calculate_cost S sid (LLM_COST_FACTOR cfg) (RSHUB_TASK_COST_FACTOR cfg)"
  obtain ci where info: "fst (settle cfg w S sid tok) = (?cost, ci)"
    using settle_info[of cfg w S sid tok] by (cases "fst (settle cfg w S sid tok)") simp
  have c1: "counted_llm_calls ?cost = llm" "counted_rshub_tasks ?cost = jobs"
    and c2: "total_cost ?cost = real llm * LLM_COST_FACTOR cfg + real jobs * RSHUB_TASK_COST_FACTOR cfg"
    using cnt by (simp_all add: calculate_cost_counted)
  have upd: "filter is_update_credits evs
         = (if DEPLOYMENT_MODE cfg = Production \<and> 0 < total_cost ?cost
            then [Update_credits tok (- total_cost ?cost)] else [])"
    unfolding evs using pre(1) post(1) by (rule settled_updates)
  have mode: "(case DEPLOYMENT_MODE cfg of
              Production \<Rightarrow>
                if 0 < total_cost ?cost
                then filter is_update_credits evs = [Update_credits tok (- total_cost ?cost)]
                     \<and> B' sid = None
                else filter is_update_credits evs = []
            | Local \<Rightarrow> filter is_credit_call evs = [])"
  proof (cases "DEPLOYMENT_MODE cfg")
    case Production
    then show ?thesis
      by (simp add: upd B' settle_billing clear_session_def)
  next
    case Local
    have "filter is_check_credits evs = []"
      unfolding evs using pre(2)[OF Local] post(2) by (simp add: settled_local[OF Local])
    moreover have "filter is_update_credits evs = []"
      using upd Local by simp
    ultimately have "filter is_credit_call evs = []"
      by (auto simp: is_credit_call_def filter_empty_conv)
    with Local show ?thesis by simp
  qed
  show ?thesis
    unfolding settlement_ok_def
    by (rule exI[of _ ?cost], rule exI[of _ ci]) (simp add: r info c1 c2 mode)
qed


lemma completed_branch_settles:
  assumes run: "agent_chat cfg w req B = (Response r, evs, B')"
      and completed: "status r = ''success'' \<or> status r = ''general_answer''
                      \<or> status r = ''guidance_provided''"
      and tok: "get_rshub_token cfg (req_token req) = Some tok"
  shows "settlement_ok cfg tok (turn_session_id w req)
           (fst (counted B (turn_session_id w req)) + llm_tracked (stage1 w)
              + (if status r = ''guidance_provided'' then 0
                 else case task_type r of None \<Rightarrow> 0 | Some m \<Rightarrow> llm_tracked (stage2 w m)))
           (snd (counted B (turn_session_id w req)) + rshub_tracked (stage1 w)
              + (if status r = ''guidance_provided'' then 0
                 else case task_type r of None \<Rightarrow> 0 | Some m \<Rightarrow> rshub_tracked (stage2 w m)))
           r evs B'"
proof -
  let ?sid = "turn_session_id w req"
  let ?S1 = "after_stage1 w req B"
  obtain c hist t n el where h: "load_history w tok (req_chat_id req) = (c, hist, t, n, el)"
    by (metis prod_cases5)
  note el = load_history_clean[OF h]
  have cnt1: "counted ?S1 ?sid
              = (fst (counted B ?sid) + llm_tracked (stage1 w),
                 snd (counted B ?sid) + rshub_tracked (stage1 w))"
    by (simp add: after_stage1_def init_tracked_counted)
  have cnt2: "counted (tracked (stage2 w m) ?sid ?S1) ?sid
              = (fst (counted B ?sid) + llm_tracked (stage1 w) + llm_tracked (stage2 w m),
                 snd (counted B ?sid) + rshub_tracked (stage1 w) + rshub_tracked (stage2 w m))"
    for m
    by (simp add: after_stage1_def tracked_tracked_counted)
  have wr: "filter is_update_credits (snd (snd (write_session w n tok c t))) = []"
           "filter is_check_credits (snd (snd (write_session w n tok c t))) = []"
    by (simp_all add: write_session_events)
  have not_error: "status r \<noteq> ''error''"
    using completed by auto
  text \<open>The turn past the credit check, for the codes that reach it.\<close>
  have gate: "settlement_ok cfg tok ?sid
           (fst (counted B ?sid) + llm_tracked (stage1 w)
              + (if status r = ''guidance_provided'' then 0
                 else case task_type r of None \<Rightarrow> 0 | Some m \<Rightarrow> llm_tracked (stage2 w m)))
           (snd (counted B ?sid) + rshub_tracked (stage1 w)
              + (if status r = ''guidance_provided'' then 0
                 else case task_type r of None \<Rightarrow> 0 | Some m \<Rightarrow> rshub_tracked (stage2 w m)))
           r evs B'"
    if st1: "ends (stage1 w) = Returns classified" and rg: "reaches_gate classified hist"
    for classified
  proof -
    let ?m = "safe_task_type classified"
    let ?S2 = "tracked (stage2 w ?m) ?sid ?S1"
    note ac = agent_chat_gate[OF tok h st1 rg, of B]
    obtain pre where
      ss: "(Response r, evs, B') = second_stage cfg w ?S1 ?sid tok classified n c t pre"
      and pre: "filter is_update_credits pre = []"
          "DEPLOYMENT_MODE cfg = Local \<Longrightarrow> filter is_check_credits pre = []"
    proof (cases "DEPLOYMENT_MODE cfg")
      case Production
      with ac run have "has_sufficient_credits w"
        by (auto simp: Let_def split: if_splits)
      with ac run Production that[of "first_events el @ [Report_progress ''analyzing'']
             @ [Report_progress ''processing'', Check_credits tok 1]"] el
      show ?thesis by (simp add: Let_def first_events_def)
    next
      case Local
      with ac run that[of "first_events el @ [Report_progress ''analyzing'']"] el
      show ?thesis by (simp add: Let_def first_events_def)
    qed
    show ?thesis
    proof (cases "ends (stage2 w ?m)")
      case (Raises e)
      with ss have "status r = ''error''"
        by (auto simp: second_stage_eq Let_def caught_def)
      with not_error show ?thesis by simp
    next
      case (Returns result)
      with ss have r: "r = \<lparr>response = Answer result, status = ''success'', task_type = Some ?m,
                        resp_session_id = ?sid,
                        billing_info = Some (fst (settle cfg w ?S2 ?sid tok)),
                        resp_chat_id = fst (write_session w n tok c t),
                        resp_chat_title = fst (snd (write_session w n tok c t))\<rparr>"
        and evs: "evs = (pre @ [Report_progress ''processing'',
                        if ?m = 1 then Run_knowledge_query else Run_analysis_agent ?m])
                   @ fst (snd (settle cfg w ?S2 ?sid tok))
                   @ (snd (snd (write_session w n tok c t)) @ [Report_progress ''completed''])"
        and B': "B' = snd (snd (settle cfg w ?S2 ?sid tok))"
        by (simp_all add: second_stage_eq Let_def)
      have "settlement_ok cfg tok ?sid
              (fst (counted B ?sid) + llm_tracked (stage1 w) + llm_tracked (stage2 w ?m))
              (snd (counted B ?sid) + rshub_tracked (stage1 w) + rshub_tracked (stage2 w ?m))
              r evs B'"
      proof (rule settlement_okI[OF _ evs B' _ _ _ _ cnt2])
        show "billing_info r = Some (fst (settle cfg w ?S2 ?sid tok))" by (simp add: r)
        show "filter is_update_credits (pre @ [Report_progress ''processing'',
                        if ?m = 1 then Run_knowledge_query else Run_analysis_agent ?m]) = []"
          using pre(1) by simp
        show "filter is_check_credits (pre @ [Report_progress ''processing'',
                        if ?m = 1 then Run_knowledge_query else Run_analysis_agent ?m]) = []"
          if "DEPLOYMENT_MODE cfg = Local"
          using pre(2)[OF that] by simp
        show "filter is_update_credits
                (snd (snd (write_session w n tok c t)) @ [Report_progress ''completed'']) = []"
          using wr(1) by simp
        show "filter is_check_credits
                (snd (snd (write_session w n tok c t)) @ [Report_progress ''completed'']) = []"
          using wr(2) by simp
      qed
      then show ?thesis by (simp add: r)
    qed
  qed
  show ?thesis
  proof (cases "ends (stage1 w)")
    case (Raises e)
    with run have "status r = ''error''"
      by (auto simp: agent_chat_raises[OF tok h Raises] caught_def)
    with not_error show ?thesis by simp
  next
    case (Returns classified)
    show ?thesis
    proof (cases "reaches_gate classified hist")
      case True
      with Returns show ?thesis by (rule gate)
    next
      case False
      then obtain i where i: "classified = IntV i"
        by (cases classified) (auto simp: reaches_gate_def)
      note st1 = Returns[unfolded i]
      show ?thesis
      proof (cases "upstream_error i ?sid c t")
        case (Some a)
        obtain r0 stage where a: "a = (r0, stage)" by (cases a)
        from run agent_chat_upstream[OF tok h st1 Some[unfolded a], of B]
        have "r = r0" by simp
        with upstream_error_status[OF Some[unfolded a]] completed show ?thesis by auto
      next
        case None
        then have ne: "i \<noteq> -100" "i \<noteq> -101" "i \<noteq> -102" "i \<noteq> -103"
          by (auto simp: upstream_error_def Let_def split: if_splits)
        with False i consider (general) "i = -1" | (guidance) "i = 3" "hist = []"
          by (auto simp: reaches_gate_def)
        then show ?thesis
        proof cases
          case general
          let ?S2 = "tracked (stage2 w (-1)) ?sid ?S1"
          note ac = agent_chat_general[OF tok h st1[unfolded general], of B]
          show ?thesis
          proof (cases "ends (stage2 w (-1))")
            case (Raises e)
            with ac run have "status r = ''error''"
              by (auto simp: Let_def caught_def)
            with not_error show ?thesis by simp
          next
            case (Returns result)
            with ac run have r: "r = \<lparr>response = Answer result, status = ''general_answer'',
                              task_type = Some (-1), resp_session_id = ?sid,
                              billing_info = Some (fst (settle cfg w ?S2 ?sid tok)),
                              resp_chat_id = fst (write_session w n tok c t),
                              resp_chat_title = fst (snd (write_session w n tok c t))\<rparr>"
              and evs: "evs = (first_events el @ [Report_progress ''analyzing'',
                                Report_progress ''processing'', Run_analysis_agent (-1)])
                         @ fst (snd (settle cfg w ?S2 ?sid tok))
                         @ snd (snd (write_session w n tok c t))"
              and B': "B' = snd (snd (settle cfg w ?S2 ?sid tok))"
              by (simp_all add: Let_def)
            have "settlement_ok cfg tok ?sid
              (fst (counted B ?sid) + llm_tracked (stage1 w) + llm_tracked (stage2 w (-1)))
              (snd (counted B ?sid) + rshub_tracked (stage1 w) + rshub_tracked (stage2 w (-1)))
              r evs B'"
              by (rule settlement_okI[OF _ evs B' _ _ wr cnt2])
                 (simp_all add: r first_events_def el)
            then show ?thesis by (simp add: r)
          qed
        next
          case guidance
          from run agent_chat_guidance[OF tok h[unfolded guidance(2)] st1[unfolded guidance(1)], of B]
          have r: "r = \<lparr>response = Guidance_text, status = ''guidance_provided'',
                      task_type = Some 3, resp_session_id = ?sid,
                      billing_info = Some (fst (settle cfg w ?S1 ?sid tok)),
                      resp_chat_id = c, resp_chat_title = t\<rparr>"
            and evs: "evs = (first_events el @ [Report_progress ''analyzing'',
                               Report_progress ''processing''])
                        @ fst (snd (settle cfg w ?S1 ?sid tok)) @ []"
            and B': "B' = snd (snd (settle cfg w ?S1 ?sid tok))"
            by simp_all
          have "settlement_ok cfg tok ?sid
              (fst (counted B ?sid) + llm_tracked (stage1 w))
              (snd (counted B ?sid) + rshub_tracked (stage1 w))
              r evs B'"
            by (rule settlement_okI[OF _ evs B' _ _ _ _ cnt1])
               (simp_all add: r first_events_def el)
          then show ?thesis by (simp add: r)
        qed
      qed
    qed
  qed
qed

text \<open>
  Claim C1, amended. On the paths of \<open>agent_chat\<close> that complete a branch (the answers
  with status \<open>success\<close>, \<open>general_answer\<close> and \<open>guidance_provided\<close>) settlement runs before
  the response is returned. The cost is computed from the counter of the session, which
  holds what it held before the turn plus what the classification and the handler have
  counted: \<open>cost = llm_calls * LLM_COST_FACTOR + rshub_tasks * RSHUB_TASK_COST_FACTOR\<close>. In
  production mode with a positive cost exactly one \<open>update_credits(token, -cost)\<close> is
  issued and the counter of the session is cleared; with a cost of zero no credit is
  updated. In local mode no call to the credit service is made.
\<close>

theorem settlement_on_completed_branch:
  assumes "agent_chat cfg w req B = (Response r, evs, B')"
      and "status r = ''success'' \<or> status r = ''general_answer''
           \<or> status r = ''guidance_provided''"
      and "get_rshub_token cfg (req_token req) = Some tok"
  shows "\<exists>cost ci.
           billing_info r = Some (cost, ci)
           \<and> counted_llm_calls cost
               = fst (counted B (turn_session_id w req)) + llm_tracked (stage1 w)
                 + (if status r = ''guidance_provided'' then 0
                    else case task_type r of None \<Rightarrow> 0 | Some m \<Rightarrow> llm_tracked (stage2 w m))
           \<and> counted_rshub_tasks cost
               = snd (counted B (turn_session_id w req)) + rshub_tracked (stage1 w)
                 + (if status r = ''guidance_provided'' then 0
                    else case task_type r of None \<Rightarrow> 0 | Some m \<Rightarrow> rshub_tracked (stage2 w m))
           \<and> total_cost cost
               = real (counted_llm_calls cost) * LLM_COST_FACTOR cfg
                 + real (counted_rshub_tasks cost) * RSHUB_TASK_COST_FACTOR cfg
           \<and> (DEPLOYMENT_MODE cfg = Production \<and> 0 < total_cost cost \<longrightarrow>
                filter is_update_credits evs = [Update_credits tok (- total_cost cost)]
                \<and> B' (turn_session_id w req) = None)
           \<and> (DEPLOYMENT_MODE cfg = Production \<and> \<not> 0 < total_cost cost \<longrightarrow>
                filter is_update_credits evs = [])
           \<and> (DEPLOYMENT_MODE cfg = Local \<longrightarrow> filter is_credit_call evs = [])"
proof -
  from completed_branch_settles[OF assms]
  obtain cost ci where
    "billing_info r = Some (cost, ci)"
    "counted_llm_calls cost
       = fst (counted B (turn_session_id w req)) + llm_tracked (stage1 w)
         + (if status r = ''guidance_provided'' then 0
            else case task_type r of None \<Rightarrow> 0 | Some m \<Rightarrow> llm_tracked (stage2 w m))"
    "counted_rshub_tasks cost
       = snd (counted B (turn_session_id w req)) + rshub_tracked (stage1 w)
         + (if status r = ''guidance_provided'' then 0
            else case task_type r of None \<Rightarrow> 0 | Some m \<Rightarrow> rshub_tracked (stage2 w m))"
    "total_cost cost
       = real (counted_llm_calls cost) * LLM_COST_FACTOR cfg
         + real (counted_rshub_tasks cost) * RSHUB_TASK_COST_FACTOR cfg"
    "case DEPLOYMENT_MODE cfg of
       Production \<Rightarrow>
         if 0 < total_cost cost
         then filter is_update_credits evs = [Update_credits tok (- total_cost cost)]
              \<and> B' (turn_session_id w req) = None
         else filter is_update_credits evs = []
     | Local \<Rightarrow> filter is_credit_call evs = []"
    unfolding settlement_ok_def by auto
  then show ?thesis
    by (intro exI[of _ cost] exI[of _ ci]) (auto split: deployment_mode.splits if_splits)
qed

lemma example_token_ok:
  "get_rshub_token (example_settings Production True) (req_token example_request) = Some example_token"
  by (simp add: get_rshub_token_def example_settings_def example_request_def example_token_def str_def)

lemma example_history:
  "load_history (example_turn cl cr h) example_token (req_chat_id example_request)
     = (None, [], None, True, [Find_latest_session example_token])"
  by (simp add: load_history_def example_turn_def example_request_def)

lemma example_sid: "turn_session_id (example_turn cl cr h) example_request = str ''s-1''"
  by (simp add: turn_session_id_def example_turn_def example_request_def)

lemma example_stage1: "stage1 (example_turn cl cr h) = example_call cl 1 0"
  and example_stage2: "stage2 (example_turn cl cr h) m = example_call h 2 0"
  and example_credits: "has_sufficient_credits (example_turn cl cr h) = cr"
  by (simp_all add: example_turn_def example_answers_def)

lemma example_counted:
  "counted (tracked (example_call h 2 0) (str ''s-1'')
      (after_stage1 (example_turn cl cr h) example_request Map.empty)) (str ''s-1'') = (3, 0)"
  using tracked_tracked_counted[of "example_call h 2 0" "str ''s-1''" "example_call cl 1 0" Map.empty]
  by (simp add: after_stage1_def example_sid example_stage1 example_call_def counted_def)

lemmas example_defs =
  example_settings_def example_turn_def example_request_def example_call_def
  example_answers_def example_token_def

lemmas turn_defs =
  agent_chat_def second_stage_def caught_def upstream_error_def write_session_def settle_def
  load_history_def get_rshub_token_def Let_def

text \<open>
  Claim C1 as stated fails on the path of the caught exception: in production mode, with
  three LLM calls counted and the knowledge handler raising, the turn answers with status
  \<open>error\<close> and no \<open>update_credits\<close> call is made.
\<close>

theorem settlement_counterexample:
  "fst (agent_chat (example_settings Production True)
          (example_turn (Returns (IntV 1)) True (Raises (str ''boom''))) example_request Map.empty)
     = Response \<lparr>response = Error_text (str ''boom''), status = ''error'', task_type = None,
                 resp_session_id = str ''s-1'', billing_info = None,
                 resp_chat_id = None, resp_chat_title = None\<rparr>
   \<and> counted (tracked (stage2 (example_turn (Returns (IntV 1)) True (Raises (str ''boom''))) 1)
         (str ''s-1'')
         (after_stage1 (example_turn (Returns (IntV 1)) True (Raises (str ''boom'')))
            example_request Map.empty)) (str ''s-1'') = (3, 0)
   \<and> filter is_update_credits
         (fst (snd (agent_chat (example_settings Production True)
            (example_turn (Returns (IntV 1)) True (Raises (str ''boom''))) example_request
            Map.empty))) = []"
proof (intro conjI)
  show "fst (agent_chat (example_settings Production True)
          (example_turn (Returns (IntV 1)) True (Raises (str ''boom''))) example_request Map.empty)
     = Response \<lparr>response = Error_text (str ''boom''), status = ''error'', task_type = None,
                 resp_session_id = str ''s-1'', billing_info = None,
                 resp_chat_id = None, resp_chat_title = None\<rparr>"
    by (simp add: turn_defs example_defs str_def)
  show "counted (tracked (stage2 (example_turn (Returns (IntV 1)) True (Raises (str ''boom''))) 1)
         (str ''s-1'')
         (after_stage1 (example_turn (Returns (IntV 1)) True (Raises (str ''boom'')))
            example_request Map.empty)) (str ''s-1'') = (3, 0)"
    by (simp add: example_stage2 example_counted)
  show "filter is_update_credits
         (fst (snd (agent_chat (example_settings Production True)
            (example_turn (Returns (IntV 1)) True (Raises (str ''boom''))) example_request
            Map.empty))) = []"
    by (simp add: turn_defs example_defs str_def)
qed

lemmas billing_defs =
  tracked_def track_llm_call_def track_rshub_task_def init_session_def calculate_cost_def
  clear_session_def numeral_2_eq_2

lemma example_turn_run:
  "agent_chat (example_settings Production True)
     (example_turn (Returns (IntV 1)) True (Returns (str ''answer''))) example_request Map.empty
   = (Response example_response, example_calls,
      snd (snd (agent_chat (example_settings Production True)
         (example_turn (Returns (IntV 1)) True (Returns (str ''answer''))) example_request
         Map.empty)))"
proof (intro prod_eqI)
  show "fst (agent_chat (example_settings Production True)
          (example_turn (Returns (IntV 1)) True (Returns (str ''answer''))) example_request
          Map.empty)
        = fst (Response example_response, example_calls,
            snd (snd (agent_chat (example_settings Production True)
              (example_turn (Returns (IntV 1)) True (Returns (str ''answer''))) example_request
              Map.empty)))"
    by (simp add: turn_defs example_defs billing_defs str_def example_response_def)
  show "fst (snd (agent_chat (example_settings Production True)
          (example_turn (Returns (IntV 1)) True (Returns (str ''answer''))) example_request
          Map.empty))
        = fst (snd (Response example_response, example_calls,
            snd (snd (agent_chat (example_settings Production True)
              (example_turn (Returns (IntV 1)) True (Returns (str ''answer''))) example_request
              Map.empty))))"
    by (simp add: turn_defs example_defs billing_defs str_def example_calls_def)
qed simp

theorem settlement_on_completed_branch_witness:
  "agent_chat (example_settings Production True)
     (example_turn (Returns (IntV 1)) True (Returns (str ''answer''))) example_request Map.empty
   = (Response example_response, example_calls,
      snd (snd (agent_chat (example_settings Production True)
         (example_turn (Returns (IntV 1)) True (Returns (str ''answer''))) example_request
         Map.empty)))
   \<and> status example_response = ''success''
   \<and> get_rshub_token (example_settings Production True) (req_token example_request)
       = Some example_token
   \<and> filter is_update_credits example_calls = [Update_credits example_token (- 3)]
   \<and> snd (snd (agent_chat (example_settings Production True)
         (example_turn (Returns (IntV 1)) True (Returns (str ''answer''))) example_request
         Map.empty)) (str ''s-1'') = None"
proof -
  have st: "status example_response = ''success'' \<or> status example_response = ''general_answer''
            \<or> status example_response = ''guidance_provided''"
    by (simp add: example_response_def)
  have mode: "DEPLOYMENT_MODE (example_settings Production True) = Production"
    by (simp add: example_settings_def)
  from settlement_on_completed_branch[OF example_turn_run st example_token_ok]
  obtain cost ci where
    info: "billing_info example_response = Some (cost, ci)"
    and charged: "DEPLOYMENT_MODE (example_settings Production True) = Production \<and> 0 < total_cost cost \<longrightarrow>
         filter is_update_credits example_calls = [Update_credits example_token (- total_cost cost)]
         \<and> snd (snd (agent_chat (example_settings Production True)
              (example_turn (Returns (IntV 1)) True (Returns (str ''answer''))) example_request
              Map.empty))
             (turn_session_id (example_turn (Returns (IntV 1)) True (Returns (str ''answer'')))
                example_request) = None"
    by blast
  from info have "total_cost cost = 3"
    by (auto simp: example_response_def)
  with charged mode example_turn_run example_token_ok show ?thesis
    by (simp add: example_sid example_response_def)
qed

subsection \<open>The task code of a response\<close>

lemma upstream_error_task_type:
  "upstream_error code sid c t = Some (r, stage) \<Longrightarrow>
     task_type r = Some code \<and> status r \<noteq> ''error''
     \<and> (code = -100 \<or> code = -101 \<or> code = -102 \<or> code = -103)"
  by (auto simp: upstream_error_def Let_def split: if_splits)

lemma agent_chat_no_token:
  "get_rshub_token cfg (req_token req) = None \<Longrightarrow>
     agent_chat cfg w req B = (HTTPException 401, [], B)"
  by (simp add: agent_chat_def Let_def)

lemma response_task_type:
  assumes run: "agent_chat cfg w req B = (Response r, evs, B')"
  shows "(status r = ''error'' \<and> task_type r = None)
         \<or> (\<exists>classified. ends (stage1 w) = Returns classified
               \<and> task_type r = Some (safe_task_type classified) \<and> status r \<noteq> ''error'')"
proof -
  obtain tok where tok: "get_rshub_token cfg (req_token req) = Some tok"
    using run agent_chat_no_token[of cfg req w B]
    by (cases "get_rshub_token cfg (req_token req)") auto
  obtain c hist t n el where h: "load_history w tok (req_chat_id req) = (c, hist, t, n, el)"
    by (metis prod_cases5)
  show ?thesis
  proof (cases "ends (stage1 w)")
    case (Raises e)
    with run show ?thesis
      by (auto simp: agent_chat_raises[OF tok h Raises] caught_def)
  next
    case (Returns classified)
    show ?thesis
    proof (cases "reaches_gate classified hist")
      case True
      note ac = agent_chat_gate[OF tok h Returns True, of B]
      obtain pre where
        ss: "(Response r, evs, B')
             = second_stage cfg w (after_stage1 w req B) (turn_session_id w req) tok
                 classified n c t pre"
        using ac run
        by (cases "DEPLOYMENT_MODE cfg") (auto simp: Let_def split: if_splits)
      show ?thesis
      proof (cases "ends (stage2 w (safe_task_type classified))")
        case (Raises e)
        with ss show ?thesis
          by (auto simp: second_stage_eq Let_def caught_def)
      next
        case Returns': (Returns result)
        with ss Returns show ?thesis
          by (auto simp: second_stage_eq Let_def)
      qed
    next
      case False
      then obtain i where i: "classified = IntV i"
        by (cases classified) (auto simp: reaches_gate_def)
      note st1 = Returns[unfolded i]
      show ?thesis
      proof (cases "upstream_error i (turn_session_id w req) c t")
        case (Some a)
        obtain r0 stage where a: "a = (r0, stage)" by (cases a)
        from run agent_chat_upstream[OF tok h st1 Some[unfolded a], of B]
        have "r = r0" by simp
        with upstream_error_task_type[OF Some[unfolded a]] st1 show ?thesis
          by (auto simp: safe_task_type_def)
      next
        case None
        then have "i \<noteq> -100" "i \<noteq> -101" "i \<noteq> -102" "i \<noteq> -103"
          by (auto simp: upstream_error_def Let_def split: if_splits)
        with False i consider (general) "i = -1" | (guidance) "i = 3" "hist = []"
          by (auto simp: reaches_gate_def)
        then show ?thesis
        proof cases
          case general
          note ac = agent_chat_general[OF tok h st1[unfolded general], of B]
          show ?thesis
          proof (cases "ends (stage2 w (-1))")
            case (Raises e)
            with ac run show ?thesis
              by (auto simp: Let_def caught_def)
          next
            case Returns': (Returns result)
            with ac run st1 general show ?thesis
              by (auto simp: Let_def safe_task_type_def)
          qed
        next
          case guidance
          from run agent_chat_guidance[OF tok h[unfolded guidance(2)] st1[unfolded guidance(1)], of B]
            st1 guidance
          show ?thesis
            by (auto simp: safe_task_type_def)
        qed
      qed
    qed
  qed
qed

subsection \<open>The range of the classifier\<close>

lemma scan_lines_supported: "scan_lines T ls = Inr (Some t) \<Longrightarrow> t \<in> set supported_modes"
  by (induction ls) (auto simp: Let_def split: if_splits sum.splits)

lemma scan_numbers_supported: "scan_numbers T ns = Inr (Some t) \<Longrightarrow> t \<in> set supported_modes"
  by (induction ns) (auto simp: Let_def split: if_splits sum.splits)

lemma keyword_match_range: "keyword_match s \<in> {1, 2, 3}"
  by (simp add: keyword_match_def)

lemma try_extract_task_type_range:
  assumes "try_extract_task_type T s = Inr t"
  shows "t \<in> {-1, 1, 2, 3}"
proof -
  have k: "keyword_match s \<in> {-1, 1, 2, 3}" for s
    using keyword_match_range[of s] by auto
  have a: "t \<in> {-1, 1, 2, 3}" if "scan_lines T ls = Inr (Some t)" for t ls
    using scan_lines_supported[OF that] by (auto simp: supported_modes_def)
  have b: "t \<in> {-1, 1, 2, 3}" if "scan_numbers T ns = Inr (Some t)" for t ns
    using scan_numbers_supported[OF that] by (auto simp: supported_modes_def)
  from assms show ?thesis
    unfolding try_extract_task_type_def Let_def
    using k a b by (auto split: option.splits sum.splits if_splits simp del: insert_iff)
qed

lemma extract_task_type_range:
  "extract_task_type_from_response T s \<in> {-1, 1, 2, 3}"
proof (cases "try_extract_task_type T s")
  case (Inl e)
  then show ?thesis by (simp add: extract_task_type_from_response_def)
next
  case (Inr t)
  with try_extract_task_type_range[OF Inr] show ?thesis
    by (simp add: extract_task_type_from_response_def)
qed

lemma classify_by_keywords_range: "classify_by_keywords T p \<in> {1, 2, 3}"
  by (simp add: classify_by_keywords_def Let_def)

lemma classify_task_range: "classify_task T aborted llm p \<in> task_codes"
proof -
  have "extract_task_type_from_response T s \<in> task_codes" for s
    using extract_task_type_range[of T s] by (auto simp: task_codes_def)
  moreover have "classify_by_keywords T p \<in> task_codes"
    using classify_by_keywords_range[of T p] by (auto simp: task_codes_def)
  ultimately show ?thesis
    unfolding classify_task_def Let_def
    by (auto split: call_result.splits simp: task_codes_def)
qed

text \<open>
  Claim C3, amended. When the first stage returns what \<open>classify_task\<close> computes, every
  response that \<open>agent_chat\<close> returns outside its \<open>except\<close> handler carries a task code in
  \<open>{-103, -102, -101, -100, -1, 1, 2, 3}\<close>; the response built by the \<open>except\<close> handler
  (status \<open>error\<close>) carries no task code. \<open>0\<close> is never returned.
\<close>

theorem task_code_closure:
  assumes "agent_chat cfg w req B = (Response r, evs, B')"
      and "ends (stage1 w) = Returns (IntV (classify_task T aborted llm (req_message req)))"
  shows "(status r \<noteq> ''error'' \<longrightarrow> (\<exists>code \<in> task_codes. task_type r = Some code))
         \<and> (status r = ''error'' \<longrightarrow> task_type r = None)
         \<and> task_type r \<noteq> Some 0"
proof -
  have range: "classify_task T aborted llm (req_message req) \<in> task_codes"
    by (rule classify_task_range)
  from response_task_type[OF assms(1)] assms(2)
  have "(status r = ''error'' \<and> task_type r = None)
        \<or> (task_type r = Some (classify_task T aborted llm (req_message req))
            \<and> status r \<noteq> ''error'')"
    by (auto simp: safe_task_type_def)
  with range show ?thesis
    by (auto simp: task_codes_def)
qed

lemmas cls_defs =
  classify_task_def extract_task_type_from_response_def try_extract_task_type_def Let_def str_def
  error_patterns_def re_search_def lit_def ascii_tab_def isdigit_def py_strip_def
  supported_modes_def py_int_def int_value_def digit_count_def digits_value_def

lemma classify_example:
  "classify_task ascii_tab False (Returns (str ''1'')) (str ''hello'') = 1"
  by (simp add: cls_defs)

text \<open>
  Claim C3 as stated fails: the classifier answers \<open>1\<close>, the knowledge handler raises, and
  the response of the \<open>except\<close> handler has no \<open>task_type\<close>.
\<close>

theorem task_code_counterexample:
  "classify_task ascii_tab False (Returns (str ''1'')) (req_message example_request) = 1
   \<and> fst (agent_chat (example_settings Production True)
          (example_turn (Returns (IntV 1)) True (Raises (str ''boom''))) example_request Map.empty)
     = Response \<lparr>response = Error_text (str ''boom''), status = ''error'', task_type = None,
                 resp_session_id = str ''s-1'', billing_info = None,
                 resp_chat_id = None, resp_chat_title = None\<rparr>"
proof
  show "classify_task ascii_tab False (Returns (str ''1'')) (req_message example_request) = 1"
    using classify_example by (simp add: example_request_def)
  show "fst (agent_chat (example_settings Production True)
          (example_turn (Returns (IntV 1)) True (Raises (str ''boom''))) example_request Map.empty)
     = Response \<lparr>response = Error_text (str ''boom''), status = ''error'', task_type = None,
                 resp_session_id = str ''s-1'', billing_info = None,
                 resp_chat_id = None, resp_chat_title = None\<rparr>"
    by (simp add: turn_defs example_defs str_def)
qed

theorem task_code_closure_witness:
  "agent_chat (example_settings Production True)
     (example_turn (Returns (IntV 1)) True (Returns (str ''answer''))) example_request Map.empty
   = (Response example_response, example_calls,
      snd (snd (agent_chat (example_settings Production True)
         (example_turn (Returns (IntV 1)) True (Returns (str ''answer''))) example_request
         Map.empty)))
   \<and> ends (stage1 (example_turn (Returns (IntV 1)) True (Returns (str ''answer''))))
       = Returns (IntV (classify_task ascii_tab False (Returns (str ''1''))
                          (req_message example_request)))
   \<and> status example_response \<noteq> ''error''
   \<and> (\<exists>code \<in> task_codes. task_type example_response = Some code)"
proof -
  have st: "ends (stage1 (example_turn (Returns (IntV 1)) True (Returns (str ''answer''))))
       = Returns (IntV (classify_task ascii_tab False (Returns (str ''1''))
                          (req_message example_request)))"
    using classify_example by (simp add: example_request_def example_turn_def example_call_def)
  have ne: "status example_response \<noteq> ''error''"
    by (simp add: example_response_def)
  from task_code_closure[OF example_turn_run st] ne example_turn_run st show ?thesis
    by blast
qed

subsection \<open>The credit check\<close>

lemma is_handler_handler_call: "m \<noteq> 0 \<Longrightarrow> is_handler (handler_call m)"
  by (simp add: handler_call_def)

lemma second_stage_calls:
  assumes "safe_task_type classified \<noteq> 0"
  shows "filter is_preflight_or_handler
           (fst (snd (second_stage cfg w S sid tok classified n c t pre)))
         = filter is_preflight_or_handler pre @ [handler_call (safe_task_type classified)]"
proof (cases "ends (stage2 w (safe_task_type classified))")
  case (Raises e)
  with assms show ?thesis
    by (simp add: second_stage_eq Let_def caught_def is_preflight_or_handler_def handler_call_def)
next
  case (Returns result)
  have s: "filter is_preflight_or_handler (fst (snd (settle cfg w S' sid tok))) = []" for S'
    by (simp add: settle_events is_preflight_or_handler_def)
  have wr: "filter is_preflight_or_handler (snd (snd (write_session w n tok c t))) = []"
    by (simp add: write_session_def is_preflight_or_handler_def)
  from Returns assms show ?thesis
    by (simp add: second_stage_eq Let_def s wr)
       (simp add: is_preflight_or_handler_def handler_call_def)
qed

text \<open>
  Claim C2, amended. In production mode, for a turn classified as \<open>1\<close>, \<open>2\<close> or \<open>3\<close> (for \<open>3\<close>,
  with a non-empty history), \<open>check_credits(token, 1)\<close> is called before the handler is
  started. When the check reports insufficient credit the turn ends with HTTP 402: no
  handler is started, no credit is updated and the billing counters stay as the
  classification left them.
\<close>

theorem credit_preflight:
  assumes "DEPLOYMENT_MODE cfg = Production"
      and "get_rshub_token cfg (req_token req) = Some tok"
      and "ends (stage1 w) = Returns (IntV i)"
      and "i = 1 \<or> i = 2 \<or> i = 3"
      and "i = 3 \<longrightarrow> fst (snd (load_history w tok (req_chat_id req))) \<noteq> []"
  shows "(has_sufficient_credits w \<longrightarrow>
            filter is_preflight_or_handler (fst (snd (agent_chat cfg w req B)))
              = [Check_credits tok 1, handler_call i])
         \<and> (\<not> has_sufficient_credits w \<longrightarrow>
              fst (agent_chat cfg w req B) = HTTPException 402
              \<and> filter is_preflight_or_handler (fst (snd (agent_chat cfg w req B)))
                  = [Check_credits tok 1]
              \<and> filter is_update_credits (fst (snd (agent_chat cfg w req B))) = []
              \<and> snd (snd (agent_chat cfg w req B)) = after_stage1 w req B)"
proof -
  obtain c hist t n el where h: "load_history w tok (req_chat_id req) = (c, hist, t, n, el)"
    by (metis prod_cases5)
  note el = load_history_clean[OF h]
  have rg: "reaches_gate (IntV i) hist"
    using assms(4,5) h by (auto simp: reaches_gate_def)
  have m: "safe_task_type (IntV i) = i" "i \<noteq> 0"
    using assms(4) by (auto simp: safe_task_type_def)
  note ac = agent_chat_gate[OF assms(2) h assms(3) rg, of B, unfolded Let_def]
  have pre: "filter is_preflight_or_handler
               ((first_events el @ [Report_progress ''analyzing''])
                  @ [Report_progress ''processing'', Check_credits tok 1])
             = [Check_credits tok 1]"
    using el by (simp add: first_events_def is_preflight_or_handler_def filter_empty_conv)
  show ?thesis
  proof (cases "has_sufficient_credits w")
    case True
    with ac assms(1)
    have "agent_chat cfg w req B
          = second_stage cfg w (after_stage1 w req B) (turn_session_id w req) tok (IntV i) n c t
              ((first_events el @ [Report_progress ''analyzing''])
                 @ [Report_progress ''processing'', Check_credits tok 1])"
      by simp
    with True second_stage_calls[of "IntV i" cfg w "after_stage1 w req B"
        "turn_session_id w req" tok n c t
        "(first_events el @ [Report_progress ''analyzing''])
           @ [Report_progress ''processing'', Check_credits tok 1]"] m pre
    show ?thesis by simp
  next
    case False
    with ac assms(1)
    have "agent_chat cfg w req B
          = (HTTPException 402,
             (first_events el @ [Report_progress ''analyzing''])
               @ [Report_progress ''processing'', Check_credits tok 1, Report_progress ''error''],
             after_stage1 w req B)"
      by simp
    with False el show ?thesis
      by (simp add: first_events_def is_preflight_or_handler_def filter_empty_conv)
  qed
qed

text \<open>
  Claim C2 as stated fails for the task code \<open>-1\<close>: in production mode, with insufficient
  credit, the general-answer handler runs and the turn is settled; \<open>check_credits\<close> is not
  called.
\<close>

theorem credit_preflight_counterexample:
  "DEPLOYMENT_MODE (example_settings Production True) = Production
   \<and> \<not> has_sufficient_credits (example_turn (Returns (IntV (-1))) False (Returns (str ''answer'')))
   \<and> filter is_preflight_or_handler
        (fst (snd (agent_chat (example_settings Production True)
           (example_turn (Returns (IntV (-1))) False (Returns (str ''answer'')))
           example_request Map.empty)))
      = [Run_analysis_agent (-1)]
   \<and> filter is_update_credits
        (fst (snd (agent_chat (example_settings Production True)
           (example_turn (Returns (IntV (-1))) False (Returns (str ''answer'')))
           example_request Map.empty)))
      = [Update_credits example_token (- 3)]"
  by (simp add: turn_defs example_defs billing_defs str_def is_preflight_or_handler_def)

theorem credit_preflight_witness:
  "DEPLOYMENT_MODE (example_settings Production True) = Production
   \<and> get_rshub_token (example_settings Production True) (req_token example_request)
       = Some example_token
   \<and> ends (stage1 (example_turn (Returns (IntV 2)) False (Returns (str ''answer''))))
       = Returns (IntV 2)
   \<and> \<not> has_sufficient_credits (example_turn (Returns (IntV 2)) False (Returns (str ''answer'')))
   \<and> fst (agent_chat (example_settings Production True)
          (example_turn (Returns (IntV 2)) False (Returns (str ''answer''))) example_request
          Map.empty) = HTTPException 402
   \<and> filter is_preflight_or_handler
        (fst (snd (agent_chat (example_settings Production True)
           (example_turn (Returns (IntV 2)) False (Returns (str ''answer''))) example_request
           Map.empty)))
      = [Check_credits example_token 1]"
proof -
  have a: "DEPLOYMENT_MODE (example_settings Production True) = Production"
    by (simp add: example_settings_def)
  have b: "ends (stage1 (example_turn (Returns (IntV 2)) False (Returns (str ''answer''))))
           = Returns (IntV 2)"
    by (simp add: example_stage1 example_call_def)
  have c: "\<not> has_sufficient_credits (example_turn (Returns (IntV 2)) False (Returns (str ''answer'')))"
    by (simp add: example_credits)
  have d: "(2::int) = 1 \<or> (2::int) = 2 \<or> (2::int) = 3" by simp
  have e: "(2::int) = 3 \<longrightarrow> fst (snd (load_history
             (example_turn (Returns (IntV 2)) False (Returns (str ''answer''))) example_token
             (req_chat_id example_request))) \<noteq> []"
    by simp
  from credit_preflight[OF a example_token_ok b d e, of Map.empty] a example_token_ok b c
  show ?thesis by simp
qed

text \<open>
  Claim C9, amended. When the first stage returns a value that is not an integer, and the
  turn passes the credit check (local mode, or sufficient credit in production mode), and
  the knowledge handler returns, \<open>agent_chat\<close> runs the knowledge handler and no other, and
  answers with \<open>task_type = 1\<close> and status \<open>success\<close>.
\<close>

theorem non_integer_classification:
  assumes "ends (stage1 w) = Returns (StrV s)"
      and "get_rshub_token cfg (req_token req) = Some tok"
      and "DEPLOYMENT_MODE cfg = Local \<or> has_sufficient_credits w"
      and "ends (stage2 w 1) = Returns result"
  shows "\<exists>r. fst (agent_chat cfg w req B) = Response r
             \<and> task_type r = Some 1 \<and> status r = ''success'' \<and> response r = Answer result
             \<and> filter is_handler (fst (snd (agent_chat cfg w req B))) = [Run_knowledge_query]"
proof -
  obtain c hist t n el where h: "load_history w tok (req_chat_id req) = (c, hist, t, n, el)"
    by (metis prod_cases5)
  note el = load_history_clean[OF h]
  have rg: "reaches_gate (StrV s) hist"
    by (simp add: reaches_gate_def)
  have m: "safe_task_type (StrV s) = 1"
    by (simp add: safe_task_type_def)
  note ac = agent_chat_gate[OF assms(2) h assms(1) rg, of B, unfolded Let_def]
  have s: "filter is_handler (fst (snd (settle cfg w S' sid tok'))) = []" for S' sid tok'
    by (simp add: settle_events)
  have wr: "filter is_handler (snd (snd (write_session w n tok c t))) = []"
    by (simp add: write_session_events)
  obtain pre where
    run: "agent_chat cfg w req B
          = second_stage cfg w (after_stage1 w req B) (turn_session_id w req) tok (StrV s) n c t pre"
    and pre: "filter is_handler pre = []"
  proof (cases "DEPLOYMENT_MODE cfg")
    case Production
    with assms(3) have "has_sufficient_credits w" by simp
    with ac Production el
      that[of "(first_events el @ [Report_progress ''analyzing''])
                 @ [Report_progress ''processing'', Check_credits tok 1]"]
    show ?thesis by (simp add: first_events_def)
  next
    case Local
    with ac el that[of "first_events el @ [Report_progress ''analyzing'']"]
    show ?thesis by (simp add: first_events_def)
  qed
  show ?thesis
    unfolding run
    using assms(4) pre
    by (simp add: second_stage_eq m Let_def s wr)
qed

text \<open>
  Claim C9 as stated fails: in production mode with insufficient credit the turn ends with
  HTTP 402 whatever the first stage returned.
\<close>

theorem non_integer_classification_counterexample:
  "ends (stage1 (example_turn (Returns (StrV (str ''sorry''))) False (Returns (str ''answer''))))
     = Returns (StrV (str ''sorry''))
   \<and> fst (agent_chat (example_settings Production True)
          (example_turn (Returns (StrV (str ''sorry''))) False (Returns (str ''answer'')))
          example_request Map.empty) = HTTPException 402"
  by (simp add: turn_defs example_defs str_def)

theorem non_integer_classification_witness:
  "ends (stage1 (example_turn (Returns (StrV (str ''sorry''))) True (Returns (str ''answer''))))
     = Returns (StrV (str ''sorry''))
   \<and> get_rshub_token (example_settings Production True) (req_token example_request)
       = Some example_token
   \<and> has_sufficient_credits (example_turn (Returns (StrV (str ''sorry''))) True (Returns (str ''answer'')))
   \<and> ends (stage2 (example_turn (Returns (StrV (str ''sorry''))) True (Returns (str ''answer''))) 1)
       = Returns (str ''answer'')
   \<and> (\<exists>r. fst (agent_chat (example_settings Production True)
              (example_turn (Returns (StrV (str ''sorry''))) True (Returns (str ''answer'')))
              example_request Map.empty) = Response r
          \<and> task_type r = Some 1 \<and> status r = ''success''
          \<and> response r = Answer (str ''answer''))"
proof -
  have a: "ends (stage1 (example_turn (Returns (StrV (str ''sorry''))) True (Returns (str ''answer''))))
           = Returns (StrV (str ''sorry''))"
    by (simp add: example_stage1 example_call_def)
  have b: "DEPLOYMENT_MODE (example_settings Production True) = Local
           \<or> has_sufficient_credits (example_turn (Returns (StrV (str ''sorry''))) True (Returns (str ''answer'')))"
    by (simp add: example_credits)
  have c: "ends (stage2 (example_turn (Returns (StrV (str ''sorry''))) True (Returns (str ''answer''))) 1)
           = Returns (str ''answer'')"
    by (simp add: example_stage2 example_call_def)
  from non_integer_classification[OF a example_token_ok b c, of Map.empty] a example_token_ok b c
  show ?thesis by (auto simp: example_credits)
qed

subsection \<open>The classifier's parsing rule\<close>

lemma starts_with_prefix: "starts_with p s = prefix p s"
  by (induction p s rule: starts_with.induct) auto

lemma contains_sublist: "contains k s = sublist k s"
  by (induction s) (simp_all add: starts_with_prefix sublist_Cons_right)

lemma any_in_mentions: "any_in keywords s = mentions keywords s"
  by (simp add: any_in_def mentions_def list_ex_iff contains_sublist)

lemma keyword_match_heuristic: "keyword_match (lower T r) = keyword_heuristic T r"
  by (simp add: keyword_match_def keyword_heuristic_def any_in_mentions)

lemma matches_error_pattern_eq:
  "matches_error_pattern T ps s = (\<exists>p \<in> set ps. re_search T p s)"
  by (induction ps) auto

lemma isolated_error_code_eq:
  "isolated_error_code codes s = (mentions codes s \<and> mentions error_words s)"
  by (induction codes) (auto simp: mentions_def contains_sublist any_in_mentions)

lemma error_signal_eq:
  "(matches_error_pattern T error_patterns (lower T r)
    \<or> isolated_error_code [str ''403'', str ''500''] (lower T r)) = error_signal T r"
  by (simp only: matches_error_pattern_eq isolated_error_code_eq error_signal_def)

lemma allowed_supported: "allowed n \<longleftrightarrow> n \<in> set supported_modes"
  by (auto simp: allowed_def supported_modes_def)

lemma scan_numbers_eq:
  "scan_numbers T ns
     = (case find (stops T) ns of
          None \<Rightarrow> Inr None
        | Some m \<Rightarrow> if refused T m then Inl ValueError else Inr (Some (int_value T m)))"
  by (induction ns)
     (auto simp: stops_def refused_def py_int_def allowed_supported split: sum.splits)

lemma scan_lines_eq:
  "scan_lines T ls
     = (case find (stops T)
               (List.map_filter (trailing_numeral T)
                  (filter (\<lambda>l. l \<noteq> []) (map (py_strip T) ls))) of
          None \<Rightarrow> Inr None
        | Some m \<Rightarrow> if refused T m then Inl ValueError else Inr (Some (int_value T m)))"
proof (induction ls)
  case Nil
  show ?case by (simp add: map_filter_simps)
next
  case (Cons l ls)
  show ?case
  proof (cases "py_strip T l = []")
    case True
    with Cons show ?thesis by (simp add: Let_def)
  next
    case False
    show ?thesis
    proof (cases "findall_int T (py_strip T l)")
      case Nil
      with False Cons show ?thesis
        by (simp add: Let_def trailing_numeral_def map_filter_simps)
    next
      case (Cons m ms)
      with False Cons.IH show ?thesis
        by (auto simp: Let_def trailing_numeral_def map_filter_simps allowed_supported
                       stops_def refused_def py_int_def
                 split: sum.splits)
    qed
  qed
qed

lemma try_extract_task_type_eq:
  "try_extract_task_type T r
     = (if error_signal T r then Inr (-1)
        else case find (stops T) (line_numerals T r) of
               Some m \<Rightarrow> if refused T m then Inl ValueError else Inr (int_value T m)
             | None \<Rightarrow>
                 (case find (stops T) (all_numerals T r) of
                    Some m \<Rightarrow> if refused T m then Inl ValueError else Inr (int_value T m)
                  | None \<Rightarrow> Inr (keyword_heuristic T r)))"
proof -
  have lines: "List.map_filter (trailing_numeral T)
                 (filter (\<lambda>l. l \<noteq> []) (map (py_strip T) (rev (split_nl (py_strip T r)))))
               = line_numerals T r"
    by (simp add: line_numerals_def nonempty_lines_def rev_map rev_filter)
  show ?thesis
  proof (cases "error_signal T r")
    case True
    with error_signal_eq[of T r] show ?thesis
      by (auto simp: try_extract_task_type_def Let_def)
  next
    case False
    with error_signal_eq[of T r]
    have "\<not> matches_error_pattern T error_patterns (lower T r)"
      and "\<not> isolated_error_code [str ''403'', str ''500''] (lower T r)"
      by auto
    with False show ?thesis
      by (simp add: try_extract_task_type_def Let_def scan_lines_eq scan_numbers_eq lines
                    all_numerals_def keyword_match_heuristic
               split: option.splits)
  qed
qed

lemma extract_task_type_amended:
  "extract_task_type_from_response T r = spec_task_type_amended T r"
  by (simp add: extract_task_type_from_response_def try_extract_task_type_eq
                spec_task_type_amended_def answer_def
           split: option.splits)

lemma find_stops_convertible:
  assumes "list_all (\<lambda>m. \<not> refused T m) ms"
  shows "find (stops T) ms = find (\<lambda>m. allowed (int_value T m)) ms"
  using assms by (induction ms) (auto simp: stops_def)

lemma find_map_value:
  "find allowed (map f ms) = map_option f (find (\<lambda>m. allowed (f m)) ms)"
  by (induction ms) auto

lemma find_not_refused:
  assumes "list_all (\<lambda>m. \<not> refused T m) ms" and "find P ms = Some m"
  shows "\<not> refused T m"
  using assms by (induction ms) (auto split: if_splits)

lemma spec_task_type_amended_convertible:
  assumes "convertible T r"
  shows "spec_task_type_amended T r = spec_task_type T r"
proof -
  from assms have l: "list_all (\<lambda>m. \<not> refused T m) (line_numerals T r)"
    and a: "list_all (\<lambda>m. \<not> refused T m) (all_numerals T r)"
    by (simp_all add: convertible_def)
  show ?thesis
    using find_not_refused[OF l] find_not_refused[OF a]
    by (auto simp: spec_task_type_amended_def spec_task_type_def answer_def find_map_value
                   find_stops_convertible[OF l] find_stops_convertible[OF a]
             split: option.splits)
qed

lemma no_limit_convertible: "int_max_str_digits T = 0 \<Longrightarrow> convertible T r"
  by (simp add: convertible_def refused_def py_int_def list_all_iff)

text \<open>On an interpreter without a limit the rule holds as the specification words it.\<close>

lemma extract_task_type_no_limit:
  "int_max_str_digits T = 0 \<Longrightarrow> extract_task_type_from_response T r = spec_task_type T r"
  by (simp add: extract_task_type_amended spec_task_type_amended_convertible
                no_limit_convertible)

text \<open>
  Claim C4, amended. For every response and every setting of the interpreter,
  \<open>_extract_task_type_from_response\<close> returns \<open>-1\<close> on an error signal. Otherwise it
  walks the trailing signed integers of the non-empty lines, last line first, and stops
  at the first one that \<open>int\<close> refuses or that lies in \<open>{1, 2, 3, -1}\<close>: it returns \<open>-1\<close>
  in the first case and the integer in the second. When the walk does not stop, it walks
  all the integers of the response in the same way, last first. When this does not stop
  either, the keyword heuristics decide: a knowledge keyword gives \<open>1\<close>, otherwise a
  modelling keyword gives \<open>2\<close>, otherwise a result keyword together with a context keyword
  gives \<open>3\<close>, otherwise \<open>1\<close>. When \<open>int\<close> refuses none of these integers, this is the rule
  of the specification. The function reads nothing but its argument and the settings of
  the interpreter, so parsing a response twice gives the same task code.
\<close>

theorem extract_task_type_as_amended:
  "extract_task_type_from_response T r = spec_task_type_amended T r
   \<and> (convertible T r \<longrightarrow> extract_task_type_from_response T r = spec_task_type T r)"
  by (simp add: extract_task_type_amended spec_task_type_amended_convertible)


subsection \<open>A response with an integer that \<open>int\<close> refuses\<close>

lemma py_strip_id:
  assumes "s \<noteq> []" and "\<not> isspace T (hd s)" and "\<not> isspace T (last s)"
  shows "py_strip T s = s"
proof -
  from assms(1,2) have "dropWhile (isspace T) s = s"
    by (cases s) simp_all
  moreover from assms(1,3) have "dropWhile (isspace T) (rev s) = rev s"
    by (cases "rev s") (simp_all add: hd_rev[symmetric])
  ultimately show ?thesis
    by (simp add: py_strip_def)
qed

lemma split_nl_one_line: "10 \<notin> set s \<Longrightarrow> split_nl s = [s]"
  by (induction s) auto

lemma findall_int_digits:
  assumes "s \<noteq> []" and "hd s \<noteq> 45" and "\<forall>c \<in> set s. isdigit T c"
  shows "findall_int T s = [s]"
proof (cases s)
  case Nil
  with assms(1) show ?thesis by simp
next
  case (Cons c cs)
  with assms(3) have tw: "takeWhile (isdigit T) cs = cs"
    and dw: "dropWhile (isdigit T) cs = []"
    by (simp_all add: takeWhile_eq_all_conv dropWhile_eq_Nil_conv)
  from Cons assms(2,3) show ?thesis by (simp add: tw dw)
qed

lemma literal_missing:
  "k \<notin> set s \<Longrightarrow> \<not> match_anywhere T (One (Lit k) # r) s"
  by (induction s) auto

lemma digits_value_grows:
  "0 \<le> a \<Longrightarrow>
     a \<le> foldl (\<lambda>a c. 10 * a + int (case decimal T c of None \<Rightarrow> 0 | Some d \<Rightarrow> d)) a ds"
proof (induction ds arbitrary: a)
  case Nil
  show ?case by simp
next
  case (Cons c ds)
  let ?a = "10 * a + int (case decimal T c of None \<Rightarrow> 0 | Some d \<Rightarrow> d)"
  from Cons.prems have "a \<le> ?a" by simp
  moreover from Cons.prems have "?a \<le> foldl (\<lambda>a c. 10 * a + int (case decimal T c of None \<Rightarrow> 0 | Some d \<Rightarrow> d)) ?a ds"
    by (intro Cons.IH) simp
  ultimately show ?case by simp
qed

lemma nines_value: "0 < n \<Longrightarrow> 9 \<le> int_value ascii_tab (replicate n 57)"
proof -
  assume "0 < n"
  then obtain k where n: "n = Suc k" by (cases n) auto
  have "9 \<le> foldl (\<lambda>a c. 10 * a + int (case decimal ascii_tab c of None \<Rightarrow> 0 | Some d \<Rightarrow> d)) 9
               (replicate k 57)"
    by (rule digits_value_grows) simp
  then show ?thesis
    by (simp add: n int_value_def digits_value_def ascii_tab_def)
qed

lemma nines_refused: "4300 < n \<Longrightarrow> refused ascii_tab (replicate n 57)"
  by (cases n) (simp_all add: refused_def py_int_def digit_count_def ascii_tab_def)

lemma long_number_no_error_signal:
  assumes "0 < n"
  shows "\<not> error_signal ascii_tab (49 # 10 # replicate n 57)"
proof -
  let ?s = "49 # 10 # replicate n 57"
  have low: "lower ascii_tab ?s = ?s"
    by (simp add: ascii_tab_def)
  have set: "set ?s = {49, 10, 57}"
    using assms by auto
  have miss: "\<not> match_anywhere ascii_tab (One (Lit k) # r) ?s" if "k \<notin> {49, 10, 57}" for k r
    using literal_missing[of k ?s] that set by simp
  have pat: "\<not> re_search ascii_tab p ?s" if "p \<in> set error_patterns" for p
    using that miss
    by (auto simp: error_patterns_def re_search_def lit_def str_def isdigit_def ascii_tab_def)
  have code: "\<not> mentions [str ''403'', str ''500''] ?s"
  proof
    assume "mentions [str ''403'', str ''500''] ?s"
    then obtain k where "k \<in> {str ''403'', str ''500''}" and "sublist k ?s"
      by (auto simp: mentions_def)
    then have "set k \<subseteq> set ?s" and "52 \<in> set k \<or> 53 \<in> set k"
      by (auto simp: str_def dest: set_mono_sublist)
    with set show False by auto
  qed
  from pat code show ?thesis
    by (auto simp: error_signal_def low)
qed

lemma long_number_lines:
  assumes "0 < n"
  shows "line_numerals ascii_tab (49 # 10 # replicate n 57) = [replicate n 57, [49]]"
proof -
  let ?s = "49 # 10 # replicate n 57"
  have sp: "\<not> isspace ascii_tab 49" "\<not> isspace ascii_tab 57"
    by (simp_all add: ascii_tab_def)
  have dg: "isdigit ascii_tab 49" "isdigit ascii_tab 57"
    by (simp_all add: isdigit_def ascii_tab_def)
  have nines: "replicate n 57 \<noteq> []" "hd (replicate n 57) = 57" "last (replicate n 57) = 57"
    using assms by (cases n; simp)+
  have s1: "py_strip ascii_tab ?s = ?s"
    using assms sp nines by (intro py_strip_id) simp_all
  have s2: "py_strip ascii_tab (replicate n 57) = replicate n 57"
    using sp nines by (intro py_strip_id) simp_all
  have s3: "py_strip ascii_tab [49] = [49]"
    using sp by (intro py_strip_id) simp_all
  have sl: "split_nl ?s = [[49], replicate n 57]"
    by (simp add: split_nl_one_line)
  have f1: "findall_int ascii_tab (replicate n 57) = [replicate n 57]"
    using nines dg by (intro findall_int_digits) simp_all
  have f2: "findall_int ascii_tab [49] = [[49]]"
    using dg by (intro findall_int_digits) simp_all
  have nl: "nonempty_lines ascii_tab ?s = [[49], replicate n 57]"
    unfolding nonempty_lines_def s1 sl
    using nines(1) by (simp add: s2 s3)
  show ?thesis
    unfolding line_numerals_def nl
    by (simp add: map_filter_simps trailing_numeral_def f1 f2 dg)
qed

lemma long_number_example:
  assumes "4300 < n"
  shows "extract_task_type_from_response ascii_tab (49 # 10 # replicate n 57) = -1"
    and "spec_task_type ascii_tab (49 # 10 # replicate n 57) = 1"
proof -
  from assms have n: "0 < n" by simp
  have one: "int_value ascii_tab [49] = 1" "allowed 1"
    by (simp_all add: int_value_def digits_value_def ascii_tab_def allowed_def)
  have big: "\<not> allowed (int_value ascii_tab (replicate n 57))"
    using nines_value[OF n] by (auto simp: allowed_def)
  show "extract_task_type_from_response ascii_tab (49 # 10 # replicate n 57) = -1"
    by (simp add: extract_task_type_amended spec_task_type_amended_def
                  long_number_no_error_signal[OF n] long_number_lines[OF n]
                  stops_def answer_def nines_refused[OF assms])
  show "spec_task_type ascii_tab (49 # 10 # replicate n 57) = 1"
    by (simp add: spec_task_type_def long_number_no_error_signal[OF n] long_number_lines[OF n]
                  big one)
qed

text \<open>
  Claim C4 as stated fails on the response \<open>'1\n' + '9' * 4301\<close>: the rule gives \<open>1\<close>, the
  integer of the line before the last; the code gives \<open>-1\<close>, because \<open>int\<close> raises on the
  last line and the \<open>except\<close> clause answers.
\<close>

theorem extract_task_type_counterexample:
  "extract_task_type_from_response ascii_tab (str ''1'' @ [10] @ replicate 4301 57) = -1
   \<and> spec_task_type ascii_tab (str ''1'' @ [10] @ replicate 4301 57) = 1"
proof -
  have s: "str ''1'' @ [10] @ replicate 4301 57 = 49 # 10 # replicate 4301 57"
    by (simp add: str_def)
  have "(4300::nat) < 4301" by simp
  from long_number_example[OF this] show ?thesis
    unfolding s by simp
qed

lemmas rule_defs =
  spec_task_type_def spec_task_type_amended_def convertible_def line_numerals_def
  all_numerals_def nonempty_lines_def trailing_numeral_def map_filter_simps refused_def
  keyword_match_def any_in_def knowledge_keywords_def modeling_keywords_def
  result_keywords_def context_keywords_def error_words_def

theorem extract_task_type_as_amended_witness:
  "convertible ascii_tab (str ''2 is the answer, not 5'')
   \<and> extract_task_type_from_response ascii_tab (str ''2 is the answer, not 5'') = 2
   \<and> spec_task_type ascii_tab (str ''2 is the answer, not 5'') = 2
   \<and> spec_task_type_amended ascii_tab (str ''2 is the answer, not 5'') = 2
   \<and> convertible ascii_tab [26500, 24314]
   \<and> extract_task_type_from_response ascii_tab [26500, 24314] = 2
   \<and> spec_task_type ascii_tab [26500, 24314] = 2
   \<and> convertible ascii_tab [32467, 26524, 20043, 21069]
   \<and> extract_task_type_from_response ascii_tab [32467, 26524, 20043, 21069] = 3
   \<and> spec_task_type ascii_tab [32467, 26524, 20043, 21069] = 3
   \<and> convertible ascii_tab (str ''Forbidden 2'')
   \<and> extract_task_type_from_response ascii_tab (str ''Forbidden 2'') = -1
   \<and> spec_task_type ascii_tab (str ''Forbidden 2'') = -1"
proof -
  have c1: "convertible ascii_tab (str ''2 is the answer, not 5'')"
    by (simp add: cls_defs rule_defs)
  have e1: "extract_task_type_from_response ascii_tab (str ''2 is the answer, not 5'') = 2"
    by (simp add: cls_defs rule_defs)
  have c2: "convertible ascii_tab [26500, 24314]"
    by (simp add: cls_defs rule_defs)
  have e2: "extract_task_type_from_response ascii_tab [26500, 24314] = 2"
    by (simp add: cls_defs rule_defs)
  have c3: "convertible ascii_tab [32467, 26524, 20043, 21069]"
    by (simp add: cls_defs rule_defs)
  have e3: "extract_task_type_from_response ascii_tab [32467, 26524, 20043, 21069] = 3"
    by (simp add: cls_defs rule_defs)
  have c4: "convertible ascii_tab (str ''Forbidden 2'')"
    by (simp add: cls_defs rule_defs)
  have e4: "extract_task_type_from_response ascii_tab (str ''Forbidden 2'') = -1"
    by (simp add: cls_defs rule_defs)
  from extract_task_type_as_amended[of ascii_tab "str ''2 is the answer, not 5''"]
       extract_task_type_as_amended[of ascii_tab "[26500, 24314]"]
       extract_task_type_as_amended[of ascii_tab "[32467, 26524, 20043, 21069]"]
       extract_task_type_as_amended[of ascii_tab "str ''Forbidden 2''"]
       c1 e1 c2 e2 c3 e3 c4 e4
  show ?thesis by simp
qed

text \<open>
  Each error signal at work, on responses that end with an allowed integer; and a response
  that names an error code outside an error context, which is parsed as usual.
\<close>

lemma error_signal_examples:
  "extract_task_type_from_response ascii_tab (str ''Error code: 429 2'') = -1"
  "extract_task_type_from_response ascii_tab (str ''404 error 2'') = -1"
  "extract_task_type_from_response ascii_tab
     ([25265, 27465, 65292, 23545, 35805, 23436, 25104, 26102, 20986, 29616, 38382, 39064]
        @ str '' 2'') = -1"
  "extract_task_type_from_response ascii_tab (str ''API error 2'') = -1"
  "extract_task_type_from_response ascii_tab (str ''AccountOverdue 2'') = -1"
  "extract_task_type_from_response ascii_tab (str ''Request failed 2'') = -1"
  "extract_task_type_from_response ascii_tab (str ''Unauthorized 2'') = -1"
  "extract_task_type_from_response ascii_tab (str ''rate limit 2'') = -1"
  "extract_task_type_from_response ascii_tab (str ''it failed with 500, 2'') = -1"
  "extract_task_type_from_response ascii_tab (str ''code 403 means 2'') = 2"
  by (simp_all add: cls_defs rule_defs)

subsection \<open>Abort flags\<close>

lemma process_task_entry_clears:
  "sid \<noteq> [] \<Longrightarrow> \<not> is_session_aborted (process_task_entry flags sid) sid"
  by (simp add: process_task_entry_def clear_abort_flag_def is_session_aborted_def)

lemma classify_task_not_aborted:
  "classify_task T False llm p \<noteq> -100"
proof -
  have "extract_task_type_from_response T s \<noteq> -100" for s
    using extract_task_type_range[of T s] by auto
  moreover have "classify_by_keywords T p \<noteq> -100"
    using classify_by_keywords_range[of T p] by auto
  ultimately show ?thesis
    by (auto simp: classify_task_def Let_def split: call_result.splits)
qed

text \<open>
  The classification reads the flag right after \<open>process_task\<close> has cleared it, so it never
  answers \<open>-100\<close>, whatever the flags were and whenever the abort arrives.
\<close>

lemma classification_never_aborts:
  "sid \<noteq> [] \<Longrightarrow> fst (classification_stage T flags sid abort_in_flight llm p) \<noteq> -100"
  by (simp add: classification_stage_def Let_def process_task_entry_clears
                classify_task_not_aborted)

text \<open>
  Claim C5, at a failing input. The abort endpoint is served while the classification
  call of a turn is in flight, and the model answers \<open>2\<close>. The turn goes on with task code
  \<open>2\<close>, not \<open>-100\<close>; the flag is set when the classification returns, and it is cleared
  again, in the middle of the turn, when the handler is entered through \<open>process_task\<close>.
\<close>

theorem abort_lost_in_turn:
  "fst (turn_flags ascii_tab Map.empty (str ''s-1'') True (Returns (str ''2''))
          (str ''build a soil model'') False True) = 2
   \<and> is_session_aborted
        (fst (snd (turn_flags ascii_tab Map.empty (str ''s-1'') True (Returns (str ''2''))
                     (str ''build a soil model'') False True))) (str ''s-1'')
   \<and> \<not> is_session_aborted
        (snd (snd (turn_flags ascii_tab Map.empty (str ''s-1'') True (Returns (str ''2''))
                     (str ''build a soil model'') False True))) (str ''s-1'')"
proof -
  have c: "classify_task ascii_tab False (Returns (str ''2'')) (str ''build a soil model'') = 2"
    by (simp add: cls_defs)
  have n: "str ''s-1'' \<noteq> []"
    by (simp add: str_def)
  show ?thesis
    using c n
    by (simp add: turn_flags_def classification_stage_def Let_def process_task_entry_def
                  clear_abort_flag_def is_session_aborted_def abort_session_def)
qed

subsection \<open>The progress buffer\<close>

lemma stored_report:
  "stored (report st sid e) sid
     = (if length (stored st sid) + 1 > max_messages_per_session
        then drop (length (stored st sid) + 1 - max_messages_per_session) (stored st sid @ [e])
        else stored st sid @ [e])"
  by (simp add: report_def stored_def Let_def py_suffix_def max_messages_per_session_def)

lemma report_bounded:
  "length (stored (report st sid e) sid) \<le> max_messages_per_session"
  by (simp add: stored_report max_messages_per_session_def)

lemma report_keeps_newest:
  "stored (report st sid e) sid \<noteq> [] \<and> last (stored (report st sid e) sid) = e"
  by (auto simp: stored_report max_messages_per_session_def)

lemma report_full:
  "length (stored st sid) = max_messages_per_session \<Longrightarrow>
     length (stored (report st sid e) sid) = max_messages_per_session"
  by (simp add: stored_report max_messages_per_session_def)

lemma subscribe_replay:
  "fst (subscribe st sid cid now during)
     = Data (connected_message sid cid now)
       # map Data (drop (length (stored st sid) - 10) (stored st sid))"
  by (auto simp: subscribe_def Let_def stored_def py_suffix_def split: option.splits)

lemma subscribe_count:
  "fst (snd (subscribe st sid cid now during))
     = length (stored (foldl (\<lambda>st e. report st sid e) st during) sid)"
  by (simp add: subscribe_def Let_def)

lemma reports_bounded:
  "length (stored st sid) \<le> max_messages_per_session \<Longrightarrow>
     length (stored (foldl (\<lambda>st e. report st sid e) st es) sid) \<le> max_messages_per_session"
  by (induction es arbitrary: st) (simp_all add: report_bounded)

lemma reports_full:
  "length (stored st sid) = max_messages_per_session \<Longrightarrow>
     length (stored (foldl (\<lambda>st e. report st sid e) st es) sid) = max_messages_per_session"
  by (induction es arbitrary: st) (simp_all add: report_full)

lemma stream_eq:
  "stream st sid cid now as
     = fst (subscribe st sid cid now (during_replay as))
       @ run_stream (snd (snd (subscribe st sid cid now (during_replay as)))) sid
           (fst (snd (subscribe st sid cid now (during_replay as)))) (from_first_pass as)"
  by (simp add: stream_def split_beta)

lemma published_simps [simp]:
  "published [] = []"
  "published (Publish e # as) = e # published as"
  "published (Poll # as) = published as"
  by (simp_all add: published_def map_filter_simps)

lemma report_length:
  "length (stored st sid) \<le> max_messages_per_session \<Longrightarrow>
     length (stored st sid) \<le> length (stored (report st sid e) sid)"
  by (simp add: stored_report max_messages_per_session_def)

text \<open>
  What a subscriber is sent after the replay is, in order, part of what was appended to
  the buffer since: nothing is sent twice and nothing out of order.
\<close>

lemma live_events_in_publish_order:
  assumes "n \<le> length (stored st sid)"
      and "length (stored st sid) \<le> max_messages_per_session"
  shows "\<exists>xs. filter is_data (run_stream st sid n as) = map Data xs
              \<and> subseq xs (drop n (stored st sid) @ published as)"
  using assms
proof (induction as arbitrary: st n)
  case Nil
  show ?case by (rule exI[of _ "[]"]) simp
next
  case (Cons a as)
  show ?case
  proof (cases a)
    case (Publish e)
    let ?st = "report st sid e"
    have n: "n \<le> length (stored ?st sid)"
      using report_length[OF Cons.prems(2), of e] Cons.prems(1) by simp
    from Cons.IH[OF n report_bounded]
    obtain xs where xs: "filter is_data (run_stream ?st sid n as) = map Data xs"
      and sub: "subseq xs (drop n (stored ?st sid) @ published as)"
      by blast
    have "subseq (drop n (stored ?st sid)) (drop n (stored st sid @ [e]))"
    proof (cases "length (stored st sid) + 1 > max_messages_per_session")
      case True
      with Cons.prems(2) have "length (stored st sid) = max_messages_per_session"
        by simp
      then have "stored ?st sid = drop 1 (stored st sid @ [e])"
        by (simp add: stored_report)
      then have "drop n (stored ?st sid) = drop 1 (drop n (stored st sid @ [e]))"
        by (simp only: drop_drop add.commute)
      then show ?thesis
        by (metis suffix_drop suffix_imp_subseq)
    next
      case False
      then show ?thesis by (simp add: stored_report)
    qed
    then have "subseq (drop n (stored ?st sid) @ published as)
                 (drop n (stored st sid @ [e]) @ published as)"
      by (rule list_emb_append_mono) simp
    with sub have "subseq xs (drop n (stored st sid) @ published (a # as))"
      using Cons.prems(1) Publish by (auto intro: subseq_order.order_trans)
    with xs Publish show ?thesis by auto
  next
    case Poll
    show ?thesis
    proof (cases "length (stored st sid) > n")
      case True
      from Cons.IH[of "length (stored st sid)" st] Cons.prems(2)
      obtain xs where xs: "filter is_data (run_stream st sid (length (stored st sid)) as) = map Data xs"
        and sub: "subseq xs (published as)"
        by auto
      have d: "filter is_data (map Data ys) = map Data ys" for ys
        by (induction ys) auto
      have "filter is_data (run_stream st sid n (a # as)) = map Data (drop n (stored st sid) @ xs)"
        using True Poll xs by (simp add: poll_def Let_def d)
      moreover have "subseq (drop n (stored st sid) @ xs) (drop n (stored st sid) @ published (a # as))"
        using sub Poll by (simp add: list_emb_append_mono)
      ultimately show ?thesis by blast
    next
      case False
      with Cons.IH[OF Cons.prems] Poll show ?thesis
        by (simp add: poll_def Let_def)
    qed
  qed
qed

lemma stored_subscribe:
  "stored (snd (snd (subscribe st sid cid now during))) sid
     = stored (foldl (\<lambda>st e. report st sid e) st during) sid"
  by (simp add: subscribe_def Let_def stored_def)

lemma filter_is_data_map: "filter is_data (map Data ys) = map Data ys"
  by (induction ys) auto

lemma stream_in_publish_order:
  assumes "length (stored st sid) \<le> max_messages_per_session"
  shows "\<exists>xs. filter is_data (stream st sid cid now as)
                = fst (subscribe st sid cid now (during_replay as)) @ map Data xs
              \<and> subseq xs (published (from_first_pass as))"
proof -
  let ?sub = "subscribe st sid cid now (during_replay as)"
  let ?st = "snd (snd ?sub)"
  let ?n = "fst (snd ?sub)"
  have n: "?n \<le> length (stored ?st sid)"
    by (simp add: stored_subscribe subscribe_count)
  have b: "length (stored ?st sid) \<le> max_messages_per_session"
    using assms by (simp add: stored_subscribe reports_bounded)
  have d: "drop ?n (stored ?st sid) = []"
    by (simp add: stored_subscribe subscribe_count)
  from live_events_in_publish_order[OF n b, of "from_first_pass as"]
  obtain xs where xs: "filter is_data (run_stream ?st sid ?n (from_first_pass as)) = map Data xs"
    and sub: "subseq xs (published (from_first_pass as))"
    unfolding d by auto
  have "filter is_data (fst ?sub) = fst ?sub"
    by (simp add: subscribe_replay filter_is_data_map)
  then show ?thesis
    using xs sub by (auto simp: stream_eq)
qed

text \<open>
  The events reported while the replay is sent are counted before the loop begins, so the
  loop does not send them: a subscriber that is sent the replay and then polls once
  receives the confirmation, the replay and a heartbeat, whatever was reported meanwhile.
\<close>

lemma during_replay_publish [simp]:
  "during_replay (map Publish es @ Poll # as) = es"
  "from_first_pass (map Publish es @ Poll # as) = Poll # as"
  by (induction es) simp_all

lemma reports_during_replay_are_skipped:
  "stream st sid cid now (map Publish es @ [Poll])
     = fst (subscribe st sid cid now es) @ [Heartbeat]"
  by (simp add: stream_eq poll_def Let_def stored_subscribe subscribe_count)

text \<open>
  Once the buffer of a session holds 100 events, a subscriber whose count stands at 100 is
  sent heartbeats only: the count of the buffer never exceeds its own again.
\<close>

lemma saturated_buffer_is_silent:
  "length (stored st sid) = max_messages_per_session \<Longrightarrow>
     filter is_data (run_stream st sid max_messages_per_session as) = []"
proof (induction as arbitrary: st)
  case Nil
  show ?case by simp
next
  case (Cons a as)
  show ?case
  proof (cases a)
    case (Publish e)
    with Cons.IH[OF report_full[OF Cons.prems]] show ?thesis by simp
  next
    case Poll
    with Cons show ?thesis by (simp add: poll_def Let_def)
  qed
qed

text \<open>
  Claim C8, at a failing input. The buffer of the session holds 100 events when the
  subscriber connects. It is sent the \<open>connected\<close> event and the last 10 buffered events;
  of the two events published afterwards, one while the replay is sent and one between
  two passes of the loop, it is sent none, only heartbeats.
\<close>

theorem full_buffer_drops_live_events:
  "stream full_storage (str ''s-1'') (str ''c-1'') (example_clock 0)
     [Publish (example_progress 1), Poll, Publish (example_progress 2), Poll]
   = Data (connected_message (str ''s-1'') (str ''c-1'') (example_clock 0))
     # replicate 10 (Data (example_progress 0)) @ [Heartbeat, Heartbeat]"
proof -
  have st: "stored full_storage (str ''s-1'') = replicate 100 (example_progress 0)"
    by (simp add: full_storage_def stored_def)
  have out: "fst (subscribe full_storage (str ''s-1'') (str ''c-1'') (example_clock 0) [e])
             = Data (connected_message (str ''s-1'') (str ''c-1'') (example_clock 0))
               # replicate 10 (Data (example_progress 0))" for e
    by (simp add: subscribe_replay st)
  have len: "length (stored full_storage (str ''s-1'')) = max_messages_per_session"
    by (simp add: st max_messages_per_session_def)
  have n: "fst (snd (subscribe full_storage (str ''s-1'') (str ''c-1'') (example_clock 0) [e]))
           = 100" for e
    using reports_full[OF len, of "[e]"]
    by (simp add: subscribe_count max_messages_per_session_def)
  have len1: "length (stored (snd (snd (subscribe full_storage (str ''s-1'') (str ''c-1'')
                 (example_clock 0) [e]))) (str ''s-1'')) = 100" for e
    using reports_full[OF len, of "[e]"]
    by (simp add: stored_subscribe max_messages_per_session_def)
  have len2: "length (stored (report (snd (snd (subscribe full_storage (str ''s-1'') (str ''c-1'')
                 (example_clock 0) [e]))) (str ''s-1'') e') (str ''s-1'')) = 100" for e e'
    using report_full[of "snd (snd (subscribe full_storage (str ''s-1'') (str ''c-1'')
                 (example_clock 0) [e]))" "str ''s-1''" e'] len1[of e]
    by (simp add: max_messages_per_session_def)
  show ?thesis
    by (simp add: stream_eq out n poll_def Let_def len1 len2)
qed
end
